theory Spec2Isabelle
  imports Main "HOL-Library.Word"
begin

unbundle bit_operations_syntax

section \<open>Output effects and control results\<close>

text \<open>
  The locker is a C program whose functions act on one global \<open>state\<close> and on the
  outside world.  Every function is embedded as a HOL function that takes the state,
  returns the new state, and lists the calls it makes to the outside world as
  \<open>action\<close>s, in program order.  What the outside world answers (the options found by
  \<open>getopt_long\<close>, the events a dispatch delivers, the verdict read from the worker)
  is an argument of the function.
\<close>

datatype log_importance = LOG_ERROR | LOG_INFO | LOG_DEBUG

datatype callback =
  Cb_display_in | Cb_comm_in | Cb_term_in | Cb_set_auth_idle | Cb_do_sigusr

datatype action =
    Log log_importance string
  | Stdout string
  | Stderr string
  | LogInit log_importance
  | InitPwBackend
  | PasswordBufferCreate nat
  | SecretBufferDestroy
  | Pipe
  | FcntlNonblock
  | DisplayConnect
  | LoopCreate
  | Roundtrip
  | RegistryBind string nat
  | SessionLock
  | CreateSurface nat
  | DestroySurface nat
  | DisplayDispatch
  | LoopAddFd callback
  | LoopAddTimer callback
  | Sigaction callback
  | DisplayFlush
  | LoopPoll
  | Invoke callback
  | UnlockAndDestroy
  | FrameCallback nat
  | SurfaceCommit nat
  | AckConfigure nat
  | RenderFrameBackground nat
  | RenderFrame nat
  | LoadBackgroundImage string

text \<open>
  A piece of the program either runs to its end (\<open>Cont\<close>, with the new state), ends the
  process (\<open>Exit\<close>, with the exit code: a \<open>return\<close> from \<open>main\<close> or a call of
  \<open>exit\<close>), is killed by a signal (\<open>Killed\<close>: \<open>SIGABRT\<close> when an \<open>assert\<close>
  fails, \<open>SIGFPE\<close> when an integer is divided by zero), or is still waiting when the
  recorded answers of the outside world are used up (\<open>Stuck\<close>).  Each carries the
  actions performed so far.
\<close>

datatype 'a res =
  Cont "action list" 'a | Exit "action list" int | Killed "action list" | Stuck "action list"

fun emit :: "action list \<Rightarrow> 'a res \<Rightarrow> 'a res" where
  "emit t (Cont u a) = Cont (t @ u) a"
| "emit t (Exit u c) = Exit (t @ u) c"
| "emit t (Killed u) = Killed (t @ u)"
| "emit t (Stuck u) = Stuck (t @ u)"

fun and_then :: "'a res \<Rightarrow> ('a \<Rightarrow> 'b res) \<Rightarrow> 'b res" where
  "and_then (Cont t a) f = emit t (f a)"
| "and_then (Exit t c) f = Exit t c"
| "and_then (Killed t) f = Killed t"
| "and_then (Stuck t) f = Stuck t"

fun trace_of :: "'a res \<Rightarrow> action list" where
  "trace_of (Cont t a) = t"
| "trace_of (Exit t c) = t"
| "trace_of (Killed t) = t"
| "trace_of (Stuck t) = t"

section \<open>Strings and colours\<close>

text \<open>
  \<open>strcmp\<close> of the C library: only the sign of the result is specified.  A C string
  ends at its first NUL, so a proper prefix compares smaller.
\<close>

fun strcmp :: "string \<Rightarrow> string \<Rightarrow> int" where
  "strcmp [] [] = 0"
| "strcmp [] (b # bs) = - 1"
| "strcmp (a # as) [] = 1"
| "strcmp (a # as) (b # bs) =
     (if a = b then strcmp as bs
      else if (of_char a :: nat) < of_char b then - 1 else 1)"

text \<open>
  \<open>lenient_strcmp\<close> (main.c:48).  A \<open>char *\<close> that may be NULL is a \<open>string option\<close>.
  Two pointers that are equal are both NULL or point to the same characters; for
  those \<open>strcmp\<close> is 0 as well, so the test \<open>a == b\<close> is the test of both being NULL
  followed by the comparison of the characters.
\<close>

fun lenient_strcmp :: "string option \<Rightarrow> string option \<Rightarrow> int" where
  "lenient_strcmp None None = 0"
| "lenient_strcmp None (Some b) = - 1"
| "lenient_strcmp (Some a) None = 1"
| "lenient_strcmp (Some a) (Some b) = strcmp a b"

text \<open>The C locale's \<open>isspace\<close> and the value of a hexadecimal digit.\<close>

definition isspace :: "char \<Rightarrow> bool" where
  "isspace c = (c \<in> set [CHR '' '', CHR 0x09, CHR 0x0A, CHR 0x0B, CHR 0x0C, CHR 0x0D])"

definition xdigit :: "char \<Rightarrow> nat option" where
  "xdigit c =
     (let n = (of_char c :: nat) in
      if 48 \<le> n \<and> n \<le> 57 then Some (n - 48)
      else if 97 \<le> n \<and> n \<le> 102 then Some (n - 87)
      else if 65 \<le> n \<and> n \<le> 70 then Some (n - 55)
      else None)"

fun strtoul_digits :: "nat \<Rightarrow> string \<Rightarrow> nat" where
  "strtoul_digits acc [] = acc"
| "strtoul_digits acc (c # cs) =
     (case xdigit c of None \<Rightarrow> acc | Some d \<Rightarrow> strtoul_digits (16 * acc + d) cs)"

text \<open>
  \<open>(uint32_t)strtoul(s, NULL, 16)\<close>: white space, an optional sign, an optional
  \<open>0x\<close>, then hexadecimal digits up to the first character that is none; a minus sign
  negates the value in unsigned arithmetic.  \<open>parse_color\<close> passes at most eight
  characters, so the value is below \<open>2 ^ 32\<close> and the saturation of \<open>strtoul\<close> at
  \<open>ULONG_MAX\<close> never applies.
\<close>

definition strtoul16 :: "string \<Rightarrow> 32 word" where
  "strtoul16 s =
     (let s1 = dropWhile isspace s;
          neg = (case s1 of [] \<Rightarrow> False | c # cs \<Rightarrow> c = CHR ''-'');
          s2 = (case s1 of [] \<Rightarrow> s1
                | c # cs \<Rightarrow> if c = CHR ''-'' \<or> c = CHR ''+'' then cs else s1);
          s3 = (case s2 of
                  a # b # c # cs \<Rightarrow>
                    if a = CHR ''0'' \<and> (b = CHR ''x'' \<or> b = CHR ''X'') \<and> xdigit c \<noteq> None
                    then c # cs else s2
                | _ \<Rightarrow> s2);
          v = (word_of_nat (strtoul_digits 0 s3) :: 32 word)
      in if neg then - v else v)"

text \<open>\<open>parse_color\<close> (main.c:30): the colour and the line it logs.\<close>

definition parse_color :: "string \<Rightarrow> action list \<times> 32 word" where
  "parse_color color0 =
     (let color = (case color0 of [] \<Rightarrow> color0
                   | c # cs \<Rightarrow> if c = CHR ''#'' then cs else color0);
          len = length color
      in if len \<noteq> 6 \<and> len \<noteq> 8
         then ([Log LOG_DEBUG (''Invalid color '' @ color @ '', defaulting to 0xFFFFFFFF'')],
               0xFFFFFFFF)
         else let res = strtoul16 color
              in ([], if length color = 6 then push_bit 8 res OR 0xFF else res))"

section \<open>Images and outputs\<close>

text \<open>
  A \<open>cairo_surface_t *\<close> is an address, a \<open>nat\<close>; where the code allows NULL the model
  has an \<open>option\<close>.  \<open>struct swaylock_image\<close> as \<open>load_image\<close> fills it: an entry of the
  list always has a surface, its \<open>output_name\<close> is NULL for the default image.
\<close>

type_synonym cairo_surface = nat

record swaylock_image =
  path :: string
  output_name :: "string option"
  cairo_surface :: cairo_surface

text \<open>
  \<open>struct swaylock_surface\<close>, the fields main.c reads and writes.  A surface is known to
  the compositor's events by the registry name of its output.
\<close>

record swaylock_surface =
  output_global_name :: nat
  surface_output_name :: "string option"
  surface_image :: "cairo_surface option"
  width :: nat
  height :: nat
  scale :: int
  subpixel :: int
  created :: bool
  dirty :: bool
  frame_pending :: bool

text \<open>
  \<open>select_image\<close> (main.c:301): the loop over \<open>state->images\<close>, from the head of the
  list, with the local \<open>default_image\<close> as accumulator.
\<close>

fun select_image_loop ::
  "swaylock_image list \<Rightarrow> string option \<Rightarrow> cairo_surface option \<Rightarrow> cairo_surface option" where
  "select_image_loop [] name default_image = default_image"
| "select_image_loop (img # rest) name default_image =
     (if lenient_strcmp (output_name img) name = 0 then Some (cairo_surface img)
      else if output_name img = None
           then select_image_loop rest name (Some (cairo_surface img))
           else select_image_loop rest name default_image)"

definition select_image :: "swaylock_image list \<Rightarrow> swaylock_surface \<Rightarrow> cairo_surface option" where
  "select_image images surface = select_image_loop images (surface_output_name surface) None"

section \<open>The program state\<close>

text \<open>
  Modelled from the spec: the enumerations and \<open>struct swaylock_state\<close> are declared in
  swaylock.h and background-image.h, which are not among the sources.  Section 3 of the
  specification gives \<open>auth_state\<close> the values Idle, Validating, Invalid and
  \<open>input_state\<close> the values Idle, Letter, Backspace, Clear; main.c and the renderer use
  exactly these constants.  The scaling modes are those of the usage text of
  \<open>parse_options\<close>, with the \<open>BACKGROUND_MODE_INVALID\<close> it tests for.
\<close>

datatype auth_state = AUTH_STATE_IDLE | AUTH_STATE_VALIDATING | AUTH_STATE_INVALID

datatype input_state =
  INPUT_STATE_IDLE | INPUT_STATE_CLEAR | INPUT_STATE_LETTER | INPUT_STATE_BACKSPACE

datatype background_mode =
    BACKGROUND_MODE_STRETCH
  | BACKGROUND_MODE_FILL
  | BACKGROUND_MODE_FIT
  | BACKGROUND_MODE_CENTER
  | BACKGROUND_MODE_TILE
  | BACKGROUND_MODE_SOLID_COLOR
  | BACKGROUND_MODE_INVALID

record swaylock_colors =
  background :: "32 word"
  text_color :: "32 word"
  highlight_bs :: "32 word"
  highlight_key :: "32 word"
  ring :: "32 word"
  highlight_clear :: "32 word"
  highlight_ver :: "32 word"
  highlight_wrong :: "32 word"

text \<open>
  The numeric options hold what \<open>strtol\<close> and \<open>atoi\<close> return; the declared types of
  these fields are in the missing header, so the values are kept as integers.
\<close>

record swaylock_args =
  colors :: swaylock_colors
  mode :: background_mode
  font :: string
  font_size :: int
  radius :: int
  thickness :: int
  indicator_x_position :: int
  indicator_y_position :: int
  ignore_empty :: bool
  show_indicator :: bool
  indicator_idle_visible :: bool
  clock :: bool
  timestr :: string
  datestr :: string

record swaylock_password =
  pw_len :: nat
  pw_buffer_len :: nat
  pw_buffer :: "string option"

text \<open>
  Modelled from the spec: section 3 gives \<open>failed_attempts: uint\<close>, an unsigned counter
  of a width the specification leaves open and the missing header fixes.  The counter's
  type is the parameter \<open>'c\<close> of the state; the functions below take it to be a word
  \<open>'w word\<close> of any width, on which \<open>++\<close> wraps around as C's unsigned arithmetic does.
  A pointer that is either NULL or bound is a \<open>bool\<close>.  \<open>auth_idle_timer\<close> tells
  whether the timer armed by \<open>schedule_auth_idle\<close> is pending.
\<close>

record 'c swaylock_state =
  args :: swaylock_args
  images :: "swaylock_image list"
  surfaces :: "swaylock_surface list"
  password :: swaylock_password
  auth_state :: auth_state
  input_state :: input_state
  highlight_start :: "32 word"
  failed_attempts :: 'c
  run_display :: bool
  locked :: bool
  auth_idle_timer :: bool
  compositor :: bool
  subcompositor :: bool
  shm :: bool
  ext_session_lock_manager_v1 :: bool
  ext_session_lock_v1 :: bool

section \<open>Surfaces and redraw requests\<close>

text \<open>
  \<open>create_surface\<close> (main.c:92): the image is chosen, the protocol objects are
  requested, the surface is marked created.  The requests are one action; the asserts on
  the returned proxies are taken to hold.
\<close>

definition create_surface ::
  "'c swaylock_state \<Rightarrow> swaylock_surface \<Rightarrow> action list \<times> swaylock_surface" where
  "create_surface state surface =
     ([CreateSurface (output_global_name surface)],
      surface\<lparr>surface_image := select_image (images state) surface, created := True\<rparr>)"

text \<open>\<open>damage_surface\<close> (main.c:163) and \<open>damage_state\<close> (main.c:180).\<close>

definition damage_surface :: "swaylock_surface \<Rightarrow> action list \<times> swaylock_surface" where
  "damage_surface surface =
     (if width surface = 0 \<or> height surface = 0 then ([], surface)
      else if frame_pending surface then ([], surface\<lparr>dirty := True\<rparr>)
      else ([FrameCallback (output_global_name surface),
             SurfaceCommit (output_global_name surface)],
            surface\<lparr>dirty := True, frame_pending := True\<rparr>))"

fun damage_surfaces :: "swaylock_surface list \<Rightarrow> action list \<times> swaylock_surface list" where
  "damage_surfaces [] = ([], [])"
| "damage_surfaces (surface # rest) =
     (let (t, surface') = damage_surface surface;
          (u, rest') = damage_surfaces rest
      in (t @ u, surface' # rest'))"

definition damage_state :: "'c swaylock_state \<Rightarrow> action list \<times> 'c swaylock_state" where
  "damage_state state =
     (let (t, ss) = damage_surfaces (surfaces state) in (t, state\<lparr>surfaces := ss\<rparr>))"

text \<open>
  A listener's \<open>data\<close> pointer is the surface of one output.  \<open>on_surface\<close> runs a
  handler on the surface of the output with the given registry name; an output that has
  no surface (any more) has no listener.  A handler that does not return ends the
  dispatch.
\<close>

definition continue :: "action list \<times> 'a \<Rightarrow> 'a res" where
  "continue r = Cont (fst r) (snd r)"

fun on_surface ::
  "nat \<Rightarrow> (swaylock_surface \<Rightarrow> swaylock_surface res) \<Rightarrow>
   swaylock_surface list \<Rightarrow> swaylock_surface list res" where
  "on_surface name h [] = Cont [] []"
| "on_surface name h (surface # rest) =
     (if output_global_name surface = name
      then and_then (h surface) (\<lambda>surface'. Cont [] (surface' # rest))
      else and_then (on_surface name h rest) (\<lambda>rest'. Cont [] (surface # rest')))"

definition with_surface ::
  "nat \<Rightarrow> (swaylock_surface \<Rightarrow> swaylock_surface res) \<Rightarrow>
   'c swaylock_state \<Rightarrow> 'c swaylock_state res" where
  "with_surface name h state =
     and_then (on_surface name h (surfaces state)) (\<lambda>ss. Cont [] (state\<lparr>surfaces := ss\<rparr>))"

text \<open>The output listener (main.c:187 to 237).\<close>

definition handle_wl_output_geometry ::
  "'c swaylock_state \<Rightarrow> int \<Rightarrow> swaylock_surface \<Rightarrow> action list \<times> swaylock_surface" where
  "handle_wl_output_geometry state sp surface =
     (let surface = surface\<lparr>subpixel := sp\<rparr>
      in if run_display state then damage_surface surface else ([], surface))"

definition handle_wl_output_done ::
  "'c swaylock_state \<Rightarrow> swaylock_surface \<Rightarrow> action list \<times> swaylock_surface" where
  "handle_wl_output_done state surface =
     (if \<not> created surface \<and> run_display state then create_surface state surface
      else ([], surface))"

definition handle_wl_output_scale ::
  "'c swaylock_state \<Rightarrow> int \<Rightarrow> swaylock_surface \<Rightarrow> action list \<times> swaylock_surface" where
  "handle_wl_output_scale state factor surface =
     (let surface = surface\<lparr>scale := factor\<rparr>
      in if run_display state then damage_surface surface else ([], surface))"

definition handle_wl_output_name ::
  "string \<Rightarrow> swaylock_surface \<Rightarrow> action list \<times> swaylock_surface" where
  "handle_wl_output_name name surface = ([], surface\<lparr>surface_output_name := Some name\<rparr>)"

text \<open>
  A call of \<open>render_frame\<close> from a listener.  Before it paints or returns,
  \<open>render_frame\<close> takes the buffer size modulo \<open>surface->scale\<close> (line 140 of the
  renderer): for a surface whose scale is 0, as \<open>calloc\<close> leaves it until the output
  sends its scale, the division traps and the process is killed.  Otherwise the call
  returns; what it draws is the subject of \<open>render_frame\<close> below.
  \<open>render_frame_background\<close> divides by nothing and returns in every case.
\<close>

definition call_render_frame :: "swaylock_surface \<Rightarrow> swaylock_surface res" where
  "call_render_frame surface =
     (if scale surface = 0 then Killed [RenderFrame (output_global_name surface)]
      else Cont [RenderFrame (output_global_name surface)] surface)"

text \<open>
  The lock surface's configure event (main.c:124) and the frame callback (main.c:141).
\<close>

definition ext_session_lock_surface_v1_handle_configure ::
  "nat \<Rightarrow> nat \<Rightarrow> swaylock_surface \<Rightarrow> swaylock_surface res" where
  "ext_session_lock_surface_v1_handle_configure w h surface =
     emit [AckConfigure (output_global_name surface),
           RenderFrameBackground (output_global_name surface)]
       (call_render_frame (surface\<lparr>width := w, height := h\<rparr>))"

definition surface_frame_handle_done :: "swaylock_surface \<Rightarrow> swaylock_surface res" where
  "surface_frame_handle_done surface =
     (if dirty surface
      then emit [FrameCallback (output_global_name surface)]
             (and_then (call_render_frame (surface\<lparr>frame_pending := True\<rparr>))
                (\<lambda>surface'. Cont [] (surface'\<lparr>dirty := False\<rparr>)))
      else Cont [] (surface\<lparr>frame_pending := False\<rparr>))"

text \<open>The registry listener (main.c:254 and main.c:279).\<close>

definition new_surface :: "nat \<Rightarrow> swaylock_surface" where
  "new_surface name =
     \<lparr>output_global_name = name, surface_output_name = None, surface_image = None,
      width = 0, height = 0, scale = 0, subpixel = 0, created = False, dirty = False,
      frame_pending = False\<rparr>"

definition handle_global ::
  "string \<Rightarrow> nat \<Rightarrow> 'c swaylock_state \<Rightarrow> action list \<times> 'c swaylock_state" where
  "handle_global interface name state =
     (if interface = ''wl_compositor''
      then ([RegistryBind interface name], state\<lparr>compositor := True\<rparr>)
      else if interface = ''wl_subcompositor''
      then ([RegistryBind interface name], state\<lparr>subcompositor := True\<rparr>)
      else if interface = ''wl_shm''
      then ([RegistryBind interface name], state\<lparr>shm := True\<rparr>)
      else if interface = ''wl_seat''
      then ([RegistryBind interface name], state)
      else if interface = ''wl_output''
      then ([RegistryBind interface name],
            state\<lparr>surfaces := new_surface name # surfaces state\<rparr>)
      else if interface = ''ext_session_lock_manager_v1''
      then ([RegistryBind interface name], state\<lparr>ext_session_lock_manager_v1 := True\<rparr>)
      else ([], state))"

fun destroy_first :: "nat \<Rightarrow> swaylock_surface list \<Rightarrow> action list \<times> swaylock_surface list" where
  "destroy_first name [] = ([], [])"
| "destroy_first name (surface # rest) =
     (if output_global_name surface = name then ([DestroySurface name], rest)
      else (let (t, rest') = destroy_first name rest in (t, surface # rest')))"

definition handle_global_remove ::
  "nat \<Rightarrow> 'c swaylock_state \<Rightarrow> action list \<times> 'c swaylock_state" where
  "handle_global_remove name state =
     (let (t, ss) = destroy_first name (surfaces state) in (t, state\<lparr>surfaces := ss\<rparr>))"

section \<open>Events of the display connection\<close>

text \<open>
  The events whose listeners main.c installs.  (The seat's events go to the listener of
  seat.c, which is not among the sources.)
\<close>

datatype wl_event =
    Global string nat
  | GlobalRemove nat
  | OutputGeometry nat int
  | OutputMode nat
  | OutputDone nat
  | OutputScale nat int
  | OutputName nat string
  | OutputDescription nat
  | LockLocked
  | LockFinished
  | SurfaceConfigure nat nat nat
  | FrameDone nat

text \<open>The session lock listener (main.c:239 and main.c:244).\<close>

definition ext_session_lock_v1_handle_locked :: "'c swaylock_state \<Rightarrow> 'c swaylock_state" where
  "ext_session_lock_v1_handle_locked state = state\<lparr>locked := True\<rparr>"

definition ext_session_lock_v1_handle_finished :: "'c swaylock_state \<Rightarrow> 'c swaylock_state res" where
  "ext_session_lock_v1_handle_finished state =
     Exit [Log LOG_ERROR ''Failed to lock session -- is another lockscreen running?''] 2"

fun handle_event :: "wl_event \<Rightarrow> 'c swaylock_state \<Rightarrow> 'c swaylock_state res" where
  "handle_event (Global interface name) state = continue (handle_global interface name state)"
| "handle_event (GlobalRemove name) state = continue (handle_global_remove name state)"
| "handle_event (OutputGeometry name sp) state =
     with_surface name (\<lambda>surface. continue (handle_wl_output_geometry state sp surface)) state"
| "handle_event (OutputMode name) state = Cont [] state"
| "handle_event (OutputDone name) state =
     with_surface name (\<lambda>surface. continue (handle_wl_output_done state surface)) state"
| "handle_event (OutputScale name factor) state =
     with_surface name (\<lambda>surface. continue (handle_wl_output_scale state factor surface))
       state"
| "handle_event (OutputName name n) state =
     with_surface name (\<lambda>surface. continue (handle_wl_output_name n surface)) state"
| "handle_event (OutputDescription name) state = Cont [] state"
| "handle_event LockLocked state = Cont [] (ext_session_lock_v1_handle_locked state)"
| "handle_event LockFinished state = ext_session_lock_v1_handle_finished state"
| "handle_event (SurfaceConfigure name w h) state =
     with_surface name (ext_session_lock_surface_v1_handle_configure w h) state"
| "handle_event (FrameDone name) state =
     with_surface name surface_frame_handle_done state"

text \<open>
  One \<open>wl_display_dispatch\<close> or \<open>wl_display_roundtrip\<close> runs the listeners of the events
  it has read, in order; \<open>exit\<close> or a trap inside a listener ends the process there.
\<close>

fun dispatch_events :: "wl_event list \<Rightarrow> 'c swaylock_state \<Rightarrow> 'c swaylock_state res" where
  "dispatch_events [] state = Cont [] state"
| "dispatch_events (e # es) state =
     and_then (handle_event e state) (\<lambda>state'. dispatch_events es state')"

section \<open>The callbacks of the event loop\<close>

text \<open>
  Modelled from the spec: \<open>read_comm_reply\<close> is defined in comm.c, which is not among
  the sources.  Sections 4.2 and 6: the parent reads exactly one byte, 1 is success, any
  other value, a closed channel or a failed read is failure and is logged as a fault.
\<close>

datatype comm_read = Byte "8 word" | ReadFailed

definition read_comm_reply :: "comm_read \<Rightarrow> action list \<times> bool" where
  "read_comm_reply r =
     (case r of
        Byte b \<Rightarrow>
          if b = 1 then ([], True)
          else if b = 0 then ([], False)
          else ([Log LOG_ERROR ''worker-integrity fault''], False)
      | ReadFailed \<Rightarrow> ([Log LOG_ERROR ''worker-integrity fault''], False))"

text \<open>
  Modelled from the spec: \<open>schedule_auth_idle\<close> and the timer's callback are defined in
  password.c, which is not among the sources.  Section 4.4: an idle/reset timer is
  (re)armed to transition \<open>auth_state\<close> back to Idle after a fixed delay, and every
  transition requests a redraw.  Arming replaces a pending timer; the callback runs when
  \<open>loop_poll\<close> finds the timer expired.
\<close>

definition schedule_auth_idle :: "'c swaylock_state \<Rightarrow> action list \<times> 'c swaylock_state" where
  "schedule_auth_idle state = ([LoopAddTimer Cb_set_auth_idle], state\<lparr>auth_idle_timer := True\<rparr>)"

definition set_auth_idle :: "'c swaylock_state \<Rightarrow> action list \<times> 'c swaylock_state" where
  "set_auth_idle state =
     (if auth_idle_timer state
      then damage_state (state\<lparr>auth_idle_timer := False, auth_state := AUTH_STATE_IDLE\<rparr>)
      else ([], state))"

text \<open>
  \<open>display_in\<close> (main.c:757): the dispatch fails (\<open>None\<close>) or runs the listeners of the
  events it read.
\<close>

definition display_in ::
  "wl_event list option \<Rightarrow> 'c swaylock_state \<Rightarrow> 'c swaylock_state res" where
  "display_in d state =
     (case d of
        None \<Rightarrow> Cont [DisplayDispatch] (state\<lparr>run_display := False\<rparr>)
      | Some events \<Rightarrow> emit [DisplayDispatch] (dispatch_events events state))"

text \<open>\<open>comm_in\<close> (main.c:763), on what the read of the verdict channel yields.\<close>

definition comm_in ::
  "comm_read \<Rightarrow> ('w::len) word swaylock_state \<Rightarrow> action list \<times> 'w word swaylock_state" where
  "comm_in r state =
     (let (t0, ok) = read_comm_reply r
      in if ok then (t0, state\<lparr>run_display := False\<rparr>)
         else let state = state\<lparr>auth_state := AUTH_STATE_INVALID\<rparr>;
                  (t1, state) = schedule_auth_idle state;
                  state = state\<lparr>failed_attempts := failed_attempts state + 1\<rparr>;
                  (t2, state) = damage_state state
              in (t0 @ t1 @ t2, state))"

text \<open>\<open>term_in\<close> (main.c:775).\<close>

definition term_in :: "'c swaylock_state \<Rightarrow> 'c swaylock_state" where
  "term_in state = state\<lparr>run_display := False\<rparr>"

text \<open>
  Modelled from the spec: \<open>loop_poll\<close> is defined in loop.c, which is not among the
  sources.  Section 4.3: it blocks until a registered descriptor is ready or a timer is
  due, then invokes the callback of each ready descriptor once.  What one call finds
  ready is a list, in the order of invocation: the display connection with the outcome
  of its dispatch, the verdict channel with what is read from it, the read end of the
  wake pipe, the expired idle timer.
\<close>

datatype ready =
    DisplayReady "wl_event list option"
  | CommReady comm_read
  | SigusrReady
  | AuthIdleExpired

fun run_callback ::
  "ready \<Rightarrow> ('w::len) word swaylock_state \<Rightarrow> 'w word swaylock_state res" where
  "run_callback (DisplayReady d) state = emit [Invoke Cb_display_in] (display_in d state)"
| "run_callback (CommReady r) state = emit [Invoke Cb_comm_in] (continue (comm_in r state))"
| "run_callback SigusrReady state = Cont [Invoke Cb_term_in] (term_in state)"
| "run_callback AuthIdleExpired state =
     emit [Invoke Cb_set_auth_idle] (continue (set_auth_idle state))"

fun loop_poll ::
  "ready list \<Rightarrow> ('w::len) word swaylock_state \<Rightarrow> 'w word swaylock_state res" where
  "loop_poll [] state = Cont [] state"
| "loop_poll (r # rs) state = and_then (run_callback r state) (\<lambda>state'. loop_poll rs state')"

text \<open>
  The main control loop (main.c:950 to 957), from the test of \<open>run_display\<close> on.  One
  iteration is the result of \<open>wl_display_flush\<close> and what \<open>loop_poll\<close> finds ready;
  \<open>FlushFailed\<close> is a result of -1 with an \<open>errno\<close> other than \<open>EAGAIN\<close>.
\<close>

datatype flush_result = Flushed | FlushEAGAIN | FlushFailed

fun main_loop ::
  "(flush_result \<times> ready list) list \<Rightarrow> ('w::len) word swaylock_state \<Rightarrow>
   'w word swaylock_state res" where
  "main_loop [] state = (if \<not> run_display state then Cont [] state else Stuck [])"
| "main_loop ((fl, rs) # rest) state =
     (if \<not> run_display state then Cont [] state
      else if fl = FlushFailed then Cont [DisplayFlush] state
      else emit [DisplayFlush, LoopPoll]
             (and_then (loop_poll rs state) (\<lambda>state'. main_loop rest state')))"

section \<open>The signal handler\<close>

text \<open>
  The wake pipe \<open>sigusr_fds\<close>: the bytes written and not yet read, whether the write end
  is \<open>O_NONBLOCK\<close>, and the capacity the kernel gives the pipe.  A write of one byte to
  a full pipe fails with \<open>EAGAIN\<close> when the descriptor is non-blocking and does not
  return otherwise.
\<close>

record wake_pipe =
  pipe_bytes :: string
  pipe_nonblock :: bool
  pipe_capacity :: nat

definition write_byte :: "char \<Rightarrow> wake_pipe \<Rightarrow> wake_pipe option" where
  "write_byte c p =
     (if length (pipe_bytes p) < pipe_capacity p then Some (p\<lparr>pipe_bytes := pipe_bytes p @ [c]\<rparr>)
      else if pipe_nonblock p then Some p
      else None)"

text \<open>
  \<open>do_sigusr\<close> (main.c:297) runs on the globals of the program, the state and the
  pipe; the result of the write is discarded.  \<open>None\<close>: the handler does not return.
\<close>

definition do_sigusr ::
  "int \<Rightarrow> 'c swaylock_state \<times> wake_pipe \<Rightarrow> ('c swaylock_state \<times> wake_pipe) option" where
  "do_sigusr sig g =
     (case write_byte (CHR ''1'') (snd g) of
        None \<Rightarrow> None
      | Some p \<Rightarrow> Some (fst g, p))"

section \<open>Options and configuration\<close>

text \<open>
  What the program asks of the C library, of the file system and of the sources that are
  missing is an \<open>environment\<close>: functions for the conversions, and for one run of the
  program the answers it gets.  \<open>getopt_long\<close> is not re-implemented: a command line is
  the list of the results \<open>getopt_long\<close> returns for it, \<open>Unrecognised\<close> being the
  \<open>'?'\<close> it returns for an option it does not know or whose argument is missing.
  The first pass of \<open>main\<close> over the command line follows the scan of \<open>log_init\<close>,
  which returns at the first \<open>-d\<close> and may leave \<open>getopt_long\<close> inside a cluster of
  short options; so the results of that pass (\<open>cli_first\<close>) are given apart from those of
  the second pass (\<open>cli\<close>).
  \<open>parse_background_mode\<close> (background-image.c) and \<open>load_background_image\<close> are
  among the missing sources and the specification does not describe them, so they are
  parameters.
\<close>

datatype long_option_codes =
    LO_CONFIG | LO_DEBUG | LO_HELP | LO_VERSION | LO_IMAGE
  | LO_IGNORE_EMPTY | LO_NO_INDICATOR | LO_IND_IDLE_VISIBLE | LO_IND_RADIUS
  | LO_IND_THICKNESS | LO_IND_X | LO_IND_Y
  | LO_BACKGROUND_COLOR | LO_BACKGROUND_MODE
  | LO_FONT | LO_FONT_SIZE
  | LO_CLOCK | LO_TIMESTR | LO_DATESTR
  | LO_COLOR_TEXT | LO_COLOR_RING | LO_COLOR_HL_BS | LO_COLOR_HL_KEY
  | LO_COLOR_HL_CLEAR | LO_COLOR_HL_VER | LO_COLOR_HL_WRONG

datatype getopt_result = Opt long_option_codes string | Unrecognised

record environment =
  strtol :: "string \<Rightarrow> int"
  atoi :: "string \<Rightarrow> int"
  parse_background_mode :: "string \<Rightarrow> background_mode"
  wordexp :: "string \<Rightarrow> string list option"
  load_background_image :: "string \<Rightarrow> cairo_surface option"
  swaylock_version :: string
  debug_flag :: bool
  argc :: nat
  cli_first :: "getopt_result list"
  cli :: "getopt_result list"
  get_config_path :: "string option"
  config_file :: "string \<Rightarrow> string list option"
  getopt_line :: "string \<Rightarrow> getopt_result list"
  password_buffer_create :: "nat \<Rightarrow> string option"
  pipe_ok :: bool
  fcntl_ok :: bool
  display_connect_ok :: bool
  roundtrip1 :: "(string \<times> nat) list option"
  roundtrip2 :: "wl_event list option"
  lock_dispatches :: "wl_event list option list"
  iterations :: "(flush_result \<times> ready list) list"

text \<open>The usage text of \<open>parse_options\<close>, abbreviated to its first line.\<close>

definition usage :: string where
  "usage = ''Usage: swaylock [options...]''"

text \<open>
  \<open>join_args\<close> (main.c:314) joins the words with single spaces; it asserts that there
  is at least one word.
\<close>

fun join_args :: "string list \<Rightarrow> string" where
  "join_args [] = []"
| "join_args [a] = a"
| "join_args (a # b # rest) = a @ CHR '' '' # join_args (b # rest)"

text \<open>
  The loop of \<open>load_image\<close> that puts a backslash before the second of two adjacent
  spaces until no two spaces are adjacent, as one pass from the left: the text before
  an inserted backslash has no two adjacent spaces left, and the search goes on from
  the second space.
\<close>

fun escape_spaces :: "string \<Rightarrow> string" where
  "escape_spaces (a # b # rest) =
     (if a = CHR '' '' \<and> b = CHR '' '' then a # CHR 0x5C # escape_spaces (b # rest)
      else a # escape_spaces (b # rest))"
| "escape_spaces s = s"

fun remove_image :: "string option \<Rightarrow> swaylock_image list \<Rightarrow> swaylock_image list option" where
  "remove_image name [] = None"
| "remove_image name (iter_image # rest) =
     (if lenient_strcmp (output_name iter_image) name = 0 then Some rest
      else map_option (\<lambda>r. iter_image # r) (remove_image name rest))"

text \<open>
  \<open>load_image\<close> (main.c:331) on the argument \<open>[[<output>]:]<path>\<close>, in its steps:
  the argument is cut at its first colon; an image already defined for the same output
  is removed (also when the new one then fails to load); the path is expanded, where
  \<open>join_args\<close> asserts that \<open>wordexp\<close> has produced a word (\<open>None\<close>: the assertion
  fails) and a failed \<open>wordexp\<close> leaves the path as it is; the image is loaded and put
  at the head of the list.
\<close>

definition split_image_arg :: "string \<Rightarrow> string option \<times> string" where
  "split_image_arg arg =
     (if CHR '':'' \<in> set arg
      then (if takeWhile (\<lambda>c. c \<noteq> CHR '':'') arg = [] then None
            else Some (takeWhile (\<lambda>c. c \<noteq> CHR '':'') arg),
            tl (dropWhile (\<lambda>c. c \<noteq> CHR '':'') arg))
      else (None, arg))"

definition replace_image ::
  "string option \<Rightarrow> string \<Rightarrow> swaylock_image list \<Rightarrow> action list \<times> swaylock_image list" where
  "replace_image name new_path imgs =
     (case remove_image name imgs of
        None \<Rightarrow> ([], imgs)
      | Some kept \<Rightarrow>
          ([Log LOG_DEBUG
              (case name of
                 Some n \<Rightarrow> ''Replacing image defined for output '' @ n @ '' with '' @ new_path
               | None \<Rightarrow> ''Replacing default image with '' @ new_path)],
           kept))"

definition expand_path :: "environment \<Rightarrow> string \<Rightarrow> string option" where
  "expand_path env p =
     (case wordexp env p of
        None \<Rightarrow> Some p
      | Some [] \<Rightarrow> None
      | Some (w # ws) \<Rightarrow> Some (join_args (w # ws)))"

definition load_image ::
  "environment \<Rightarrow> string \<Rightarrow> 'c swaylock_state \<Rightarrow> 'c swaylock_state res" where
  "load_image env arg state =
     (let name = fst (split_image_arg arg);
          path0 = snd (split_image_arg arg);
          replaced = replace_image name path0 (images state)
      in case expand_path env (escape_spaces path0) of
           None \<Rightarrow> Killed (fst replaced)
         | Some path1 \<Rightarrow>
             (case load_background_image env path1 of
                None \<Rightarrow>
                  Cont (fst replaced @ [LoadBackgroundImage path1])
                    (state\<lparr>images := snd replaced\<rparr>)
              | Some cs \<Rightarrow>
                  Cont (fst replaced @
                        [LoadBackgroundImage path1,
                         Log LOG_DEBUG
                           (''Loaded image '' @ path1 @ '' for output '' @
                            (case name of Some n \<Rightarrow> n | None \<Rightarrow> ''*''))])
                    (state\<lparr>images :=
                       \<lparr>path = path1, output_name = name, cairo_surface = cs\<rparr> #
                       snd replaced\<rparr>)))"

text \<open>\<open>set_default_colors\<close> (main.c:391), with the seven-digit constant of the ring.\<close>

definition set_default_colors :: "swaylock_colors \<Rightarrow> swaylock_colors" where
  "set_default_colors c =
     c\<lparr>background := 0x95A5A6FF, text_color := 0x2C3E50FF, highlight_bs := 0xE67E22FF,
       highlight_key := 0x1ABC9CFF, ring := 0x3498DBF, highlight_clear := 0x27AE60FF,
       highlight_ver := 0x7f8C8DFF, highlight_wrong := 0xC0392BFF\<rparr>"

text \<open>
  \<open>parse_options\<close> (main.c:408) works through the options in the order \<open>getopt_long\<close>
  returns them.  The pointers \<open>state\<close> and \<open>config_path\<close> may be NULL: \<open>has_state\<close>
  and \<open>has_config\<close> say whether they are given.  The result is the returned integer
  with the state and the config path as the call leaves them; \<open>--version\<close> leaves the
  process by \<open>exit\<close>.  Codes without a \<open>case\<close> of their own (\<open>LO_HELP\<close>,
  \<open>LO_BACKGROUND_COLOR\<close>) and \<open>'?'\<close> take the \<open>default\<close> branch.
\<close>

record 'c parsed =
  p_state :: "'c swaylock_state"
  p_config_path :: "string option"

definition set_arg ::
  "(swaylock_args \<Rightarrow> swaylock_args) \<Rightarrow> bool \<Rightarrow> 'c parsed \<Rightarrow> 'c parsed" where
  "set_arg f has_state p =
     (if has_state then p\<lparr>p_state := (p_state p)\<lparr>args := f (args (p_state p))\<rparr>\<rparr> else p)"

definition set_color ::
  "(32 word \<Rightarrow> swaylock_colors \<Rightarrow> swaylock_colors) \<Rightarrow> string \<Rightarrow> bool \<Rightarrow> 'c parsed \<Rightarrow>
   action list \<times> 'c parsed" where
  "set_color f optarg has_state p =
     (if has_state
      then (fst (parse_color optarg),
            set_arg (\<lambda>a. a\<lparr>colors := f (snd (parse_color optarg)) (colors a)\<rparr>) True p)
      else ([], p))"

fun parse_options ::
  "environment \<Rightarrow> bool \<Rightarrow> bool \<Rightarrow> getopt_result list \<Rightarrow> 'c parsed \<Rightarrow> (int \<times> 'c parsed) res" where
  "parse_options env has_state has_config [] p = Cont [] (0, p)"
| "parse_options env has_state has_config (Unrecognised # rest) p = Cont [Stderr usage] (1, p)"
| "parse_options env has_state has_config (Opt c optarg # rest) p =
     (case c of
        LO_CONFIG \<Rightarrow>
          parse_options env has_state has_config rest
            (if has_config then p\<lparr>p_config_path := Some optarg\<rparr> else p)
      | LO_DEBUG \<Rightarrow> emit [LogInit LOG_DEBUG] (parse_options env has_state has_config rest p)
      | LO_VERSION \<Rightarrow> Exit [Stdout (''swaylock version '' @ swaylock_version env)] 0
      | LO_IMAGE \<Rightarrow>
          if has_state
          then and_then (load_image env optarg (p_state p))
                 (\<lambda>state'. parse_options env has_state has_config rest (p\<lparr>p_state := state'\<rparr>))
          else parse_options env has_state has_config rest p
      | LO_IGNORE_EMPTY \<Rightarrow>
          parse_options env has_state has_config rest
            (set_arg (\<lambda>a. a\<lparr>ignore_empty := True\<rparr>) has_state p)
      | LO_NO_INDICATOR \<Rightarrow>
          parse_options env has_state has_config rest
            (set_arg (\<lambda>a. a\<lparr>show_indicator := False\<rparr>) has_state p)
      | LO_IND_IDLE_VISIBLE \<Rightarrow>
          parse_options env has_state has_config rest
            (set_arg (\<lambda>a. a\<lparr>indicator_idle_visible := True\<rparr>) has_state p)
      | LO_IND_RADIUS \<Rightarrow>
          parse_options env has_state has_config rest
            (set_arg (\<lambda>a. a\<lparr>radius := strtol env optarg\<rparr>) has_state p)
      | LO_IND_THICKNESS \<Rightarrow>
          parse_options env has_state has_config rest
            (set_arg (\<lambda>a. a\<lparr>thickness := strtol env optarg\<rparr>) has_state p)
      | LO_IND_X \<Rightarrow>
          parse_options env has_state has_config rest
            (set_arg (\<lambda>a. a\<lparr>indicator_x_position := atoi env optarg\<rparr>) has_state p)
      | LO_IND_Y \<Rightarrow>
          parse_options env has_state has_config rest
            (set_arg (\<lambda>a. a\<lparr>indicator_y_position := atoi env optarg\<rparr>) has_state p)
      | LO_BACKGROUND_MODE \<Rightarrow>
          if has_state
          then (let p' = set_arg (\<lambda>a. a\<lparr>mode := parse_background_mode env optarg\<rparr>) True p
                in if mode (args (p_state p')) = BACKGROUND_MODE_INVALID then Cont [] (1, p')
                   else parse_options env has_state has_config rest p')
          else parse_options env has_state has_config rest p
      | LO_FONT \<Rightarrow>
          parse_options env has_state has_config rest
            (set_arg (\<lambda>a. a\<lparr>font := optarg\<rparr>) has_state p)
      | LO_FONT_SIZE \<Rightarrow>
          parse_options env has_state has_config rest
            (set_arg (\<lambda>a. a\<lparr>font_size := atoi env optarg\<rparr>) has_state p)
      | LO_CLOCK \<Rightarrow>
          parse_options env has_state has_config rest
            (set_arg (\<lambda>a. a\<lparr>clock := True\<rparr>) has_state p)
      | LO_TIMESTR \<Rightarrow>
          parse_options env has_state has_config rest
            (set_arg (\<lambda>a. a\<lparr>timestr := optarg\<rparr>) has_state p)
      | LO_DATESTR \<Rightarrow>
          parse_options env has_state has_config rest
            (set_arg (\<lambda>a. a\<lparr>datestr := optarg\<rparr>) has_state p)
      | LO_COLOR_TEXT \<Rightarrow>
          (let (t, p') = set_color (\<lambda>v c. c\<lparr>text_color := v\<rparr>) optarg has_state p
           in emit t (parse_options env has_state has_config rest p'))
      | LO_COLOR_RING \<Rightarrow>
          (let (t, p') = set_color (\<lambda>v c. c\<lparr>ring := v\<rparr>) optarg has_state p
           in emit t (parse_options env has_state has_config rest p'))
      | LO_COLOR_HL_BS \<Rightarrow>
          (let (t, p') = set_color (\<lambda>v c. c\<lparr>highlight_bs := v\<rparr>) optarg has_state p
           in emit t (parse_options env has_state has_config rest p'))
      | LO_COLOR_HL_KEY \<Rightarrow>
          (let (t, p') = set_color (\<lambda>v c. c\<lparr>highlight_key := v\<rparr>) optarg has_state p
           in emit t (parse_options env has_state has_config rest p'))
      | LO_COLOR_HL_CLEAR \<Rightarrow>
          (let (t, p') = set_color (\<lambda>v c. c\<lparr>highlight_clear := v\<rparr>) optarg has_state p
           in emit t (parse_options env has_state has_config rest p'))
      | LO_COLOR_HL_VER \<Rightarrow>
          (let (t, p') = set_color (\<lambda>v c. c\<lparr>highlight_ver := v\<rparr>) optarg has_state p
           in emit t (parse_options env has_state has_config rest p'))
      | LO_COLOR_HL_WRONG \<Rightarrow>
          (let (t, p') = set_color (\<lambda>v c. c\<lparr>highlight_wrong := v\<rparr>) optarg has_state p
           in emit t (parse_options env has_state has_config rest p'))
      | _ \<Rightarrow> Cont [Stderr usage] (1, p))"

text \<open>A number as \<open>%d\<close> prints it.\<close>

fun show_nat :: "nat \<Rightarrow> string" where
  "show_nat n =
     (if n < 10 then [char_of (48 + n)]
      else show_nat (n div 10) @ [char_of (48 + n mod 10)])"

declare show_nat.simps [simp del]

text \<open>
  \<open>load_config\<close> (main.c:711).  A line is as \<open>getline\<close> returns it; the flag handed to
  \<open>parse_options\<close> is the line behind two dashes; \<open>line_number\<close> counts the lines read
  so far.  A line that \<open>parse_options\<close> rejects ends the reading; the function
  returns 0 in every case.  (The allocation of the flag is taken to succeed.)
\<close>

definition strip_newline :: "string \<Rightarrow> string" where
  "strip_newline line = (if line \<noteq> [] \<and> last line = CHR 0x0A then butlast line else line)"

fun load_config_lines ::
  "environment \<Rightarrow> nat \<Rightarrow> string list \<Rightarrow> 'c parsed \<Rightarrow> 'c parsed res" where
  "load_config_lines env line_number [] p = Cont [] p"
| "load_config_lines env line_number (raw # rest) p =
     (let line = strip_newline raw
      in if line = [] \<or> hd line = CHR ''#''
         then load_config_lines env (line_number + 1) rest p
         else emit [Log LOG_DEBUG
                      (''Config Line #'' @ show_nat (line_number + 1) @ '': '' @ line)]
                (and_then (parse_options env True False (getopt_line env line) p)
                   (\<lambda>(result, p'). if result \<noteq> 0 then Cont [] p'
                                   else load_config_lines env (line_number + 1) rest p')))"

definition load_config :: "environment \<Rightarrow> string \<Rightarrow> 'c parsed \<Rightarrow> (int \<times> 'c parsed) res" where
  "load_config env config_path p =
     (case config_file env config_path of
        None \<Rightarrow> Cont [Log LOG_ERROR ''Failed to read config. Running without it.''] (0, p)
      | Some lines \<Rightarrow> and_then (load_config_lines env 0 lines p) (\<lambda>p'. Cont [] (0, p')))"

section \<open>The main function\<close>

text \<open>
  The global \<open>state\<close> has static storage and starts as zeros: no pointer bound, no
  flag set, both sub-states Idle (section 3: created with both sub-states Idle).
\<close>

definition zero_state :: "('w::len) word swaylock_state" where
  "zero_state =
     \<lparr>args = \<lparr>colors = \<lparr>background = 0, text_color = 0, highlight_bs = 0, highlight_key = 0,
                        ring = 0, highlight_clear = 0, highlight_ver = 0, highlight_wrong = 0\<rparr>,
              mode = BACKGROUND_MODE_STRETCH, font = [], font_size = 0, radius = 0,
              thickness = 0, indicator_x_position = 0, indicator_y_position = 0,
              ignore_empty = False, show_indicator = False, indicator_idle_visible = False,
              clock = False, timestr = [], datestr = []\<rparr>,
      images = [], surfaces = [],
      password = \<lparr>pw_len = 0, pw_buffer_len = 0, pw_buffer = None\<rparr>,
      auth_state = AUTH_STATE_IDLE, input_state = INPUT_STATE_IDLE, highlight_start = 0,
      failed_attempts = 0, run_display = False, locked = False, auth_idle_timer = False,
      compositor = False, subcompositor = False, shm = False,
      ext_session_lock_manager_v1 = False, ext_session_lock_v1 = False\<rparr>"

text \<open>main.c:810 to 828: the counter, the default arguments, the default colours.\<close>

definition initial_state :: "('w::len) word swaylock_state" where
  "initial_state =
     (let state = zero_state\<lparr>failed_attempts := 0\<rparr>;
          state = state\<lparr>args := (args state)
                    \<lparr>ignore_empty := True, show_indicator := True,
                     indicator_idle_visible := False, radius := 50, thickness := 10,
                     indicator_x_position := - 1, indicator_y_position := - 1,
                     mode := BACKGROUND_MODE_FILL, font := ''sans-serif'', font_size := 0,
                     clock := True, timestr := ''%T'', datestr := ''%a, %x''\<rparr>\<rparr>;
          state = state\<lparr>images := []\<rparr>
      in state\<lparr>args := (args state)\<lparr>colors := set_default_colors (colors (args state))\<rparr>\<rparr>)"

text \<open>
  main.c:806 to 857: logging, the start of the credential worker, then the options: a
  first pass over the command line (\<open>cli_first\<close>) for the config path only, the config
  file, and a second pass over the command line (\<open>cli\<close>) into the state.
\<close>

definition main_options :: "environment \<Rightarrow> ('w::len) word swaylock_state res" where
  "main_options env =
     emit [LogInit (if debug_flag env then LOG_DEBUG else LOG_ERROR), InitPwBackend]
       (and_then
          (parse_options env False True (cli_first env)
             \<lparr>p_state = initial_state, p_config_path = None\<rparr>)
          (\<lambda>(result, p).
             if result \<noteq> 0 then Exit [] result
             else
               (let config_path =
                      (case p_config_path p of None \<Rightarrow> get_config_path env | Some c \<Rightarrow> Some c)
                in and_then
                     (case config_path of
                        None \<Rightarrow> Cont [] (0, p)
                      | Some c \<Rightarrow>
                          emit [Log LOG_DEBUG (''Found config at '' @ c)] (load_config env c p))
                     (\<lambda>(config_status, p).
                        if config_status \<noteq> 0 then Exit [] config_status
                        else if 1 < argc env
                        then emit [Log LOG_DEBUG ''Parsing CLI Args'']
                               (and_then (parse_options env True False (cli env) p)
                                  (\<lambda>(result, p).
                                     if result \<noteq> 0 then Exit [] result
                                     else Cont [] (p_state p)))
                        else Cont [] (p_state p)))))"

text \<open>
  main.c:859 to 929: the password buffer, the wake pipe, the display connection, the
  globals, the lock request and its roundtrip, the surfaces of the outputs known so
  far.  \<open>EXIT_FAILURE\<close> is 1.
\<close>

fun handle_globals ::
  "(string \<times> nat) list \<Rightarrow> 'c swaylock_state \<Rightarrow> action list \<times> 'c swaylock_state" where
  "handle_globals [] state = ([], state)"
| "handle_globals ((interface, name) # rest) state =
     (let (t, state') = handle_global interface name state;
          (u, state'') = handle_globals rest state'
      in (t @ u, state''))"

fun create_surfaces ::
  "'c swaylock_state \<Rightarrow> swaylock_surface list \<Rightarrow> action list \<times> swaylock_surface list" where
  "create_surfaces state [] = ([], [])"
| "create_surfaces state (surface # rest) =
     (let (t, surface') = create_surface state surface;
          (u, rest') = create_surfaces state rest
      in (t @ u, surface' # rest'))"

definition main_setup ::
  "environment \<Rightarrow> 'c swaylock_state \<Rightarrow> 'c swaylock_state res" where
  "main_setup env state0 =
     (let state = state0\<lparr>password :=
                    \<lparr>pw_len = 0, pw_buffer_len = 1024,
                     pw_buffer = password_buffer_create env 1024\<rparr>\<rparr>
      in emit [PasswordBufferCreate 1024]
        (if pw_buffer (password state) = None then Exit [] 1
         else emit [Pipe]
        (if \<not> pipe_ok env then Exit [Log LOG_ERROR ''Failed to pipe''] 1
         else emit [FcntlNonblock]
        (if \<not> fcntl_ok env then Exit [Log LOG_ERROR ''Failed to make pipe end nonblocking''] 1
         else emit [DisplayConnect]
        (if \<not> display_connect_ok env
         then Exit [Log LOG_ERROR
                      (''Unable to connect to the compositor. '' @
                       ''If your compositor is running, check or set the '' @
                       ''WAYLAND_DISPLAY environment variable.'')] 1
         else emit [LoopCreate, Roundtrip]
        (case roundtrip1 env of
           None \<Rightarrow> Exit [Log LOG_ERROR ''wl_display_roundtrip() failed''] 1
         | Some globals \<Rightarrow>
             (let (t, state) = handle_globals globals (state\<lparr>surfaces := []\<rparr>)
              in emit t
                (if \<not> compositor state then Exit [Log LOG_ERROR ''Missing wl_compositor''] 1
                 else if \<not> subcompositor state
                 then Exit [Log LOG_ERROR ''Missing wl_subcompositor''] 1
                 else if \<not> shm state then Exit [Log LOG_ERROR ''Missing wl_shm''] 1
                 else if \<not> ext_session_lock_manager_v1 state
                 then Exit [Log LOG_ERROR ''Missing ext-session-lock-v1''] 1
                 else emit [SessionLock, Roundtrip]
                   (case roundtrip2 env of
                      None \<Rightarrow> Exit [] 1
                    | Some events \<Rightarrow>
                        and_then (dispatch_events events (state\<lparr>ext_session_lock_v1 := True\<rparr>))
                          (\<lambda>state.
                             let (t, ss) = create_surfaces state (surfaces state)
                             in Cont t (state\<lparr>surfaces := ss\<rparr>)))))))))))"

text \<open>
  main.c:931 to 936: dispatch until the compositor has confirmed the lock.  Each
  element is one \<open>wl_display_dispatch\<close>: a failure (\<open>None\<close>) or the events it read.
\<close>

fun wait_locked ::
  "wl_event list option list \<Rightarrow> 'c swaylock_state \<Rightarrow> 'c swaylock_state res" where
  "wait_locked [] state = (if locked state then Cont [] state else Stuck [])"
| "wait_locked (d # ds) state =
     (if locked state then Cont [] state
      else emit [DisplayDispatch]
             (case d of
                None \<Rightarrow> Exit [Log LOG_ERROR ''wl_display_dispatch() failed''] 2
              | Some events \<Rightarrow>
                  and_then (dispatch_events events state) (\<lambda>state'. wait_locked ds state')))"

text \<open>
  main.c:938 to 957: the three descriptors are registered, the handler of \<open>SIGUSR1\<close> is
  installed, \<open>run_display\<close> is set and the loop runs.  main.c:959 to 965: the lock is
  released, one more roundtrip, and \<open>main\<close> returns 0.  The lock object is destroyed
  before that last roundtrip, so none of the listeners it can still run ends the
  process.
\<close>

definition main_run ::
  "(flush_result \<times> ready list) list \<Rightarrow> ('w::len) word swaylock_state \<Rightarrow>
   'w word swaylock_state res" where
  "main_run its state =
     emit [LoopAddFd Cb_display_in, LoopAddFd Cb_comm_in, LoopAddFd Cb_term_in,
           Sigaction Cb_do_sigusr]
       (main_loop its (state\<lparr>run_display := True\<rparr>))"

definition main_finish :: "'c swaylock_state \<Rightarrow> 'c swaylock_state res" where
  "main_finish state = Exit [UnlockAndDestroy, Roundtrip] 0"

definition main_startup :: "environment \<Rightarrow> ('w::len) word swaylock_state res" where
  "main_startup env =
     and_then (main_options env)
       (\<lambda>state. and_then (main_setup env state)
          (\<lambda>state. wait_locked (lock_dispatches env) state))"

definition main :: "environment \<Rightarrow> ('w::len) word swaylock_state res" where
  "main env =
     and_then (main_startup env)
       (\<lambda>state. and_then (main_run (iterations env) state) main_finish)"

text \<open>The failed verdicts among what the iterations of a run find ready.\<close>

definition failed_verdict :: "ready \<Rightarrow> bool" where
  "failed_verdict r = (case r of CommReady c \<Rightarrow> \<not> snd (read_comm_reply c) | _ \<Rightarrow> False)"

definition failed_verdicts :: "(flush_result \<times> ready list) list \<Rightarrow> nat" where
  "failed_verdicts its = length (filter failed_verdict (concat (map snd its)))"

section \<open>Rendering a frame\<close>

text \<open>
  \<open>render_frame\<close> (the renderer, line 116) as the list of what it paints into the
  indicator buffer.  The clock text comes from \<open>strftime\<close>, a parameter;
  \<open>buffer_ok\<close> tells whether \<open>get_next_buffer\<close> returns a buffer.  The sizes and
  positions are computed from fields whose types the missing header declares and from
  floating-point extents; they are left out, except that the computation takes the
  buffer size modulo the surface's \<open>scale\<close> before anything is painted, which C leaves
  undefined for a scale of 0.
\<close>

datatype draw =
    Paint_clear
  | Stroke_ring "32 word"
  | Show_text "32 word" string
  | Stroke_highlight "32 word" "32 word"
  | Stroke_borders "32 word"
  | Log_info string
  | Subsurface_set_position
  | Attach_and_commit

datatype frame = Division_by_zero | No_buffer | Frame "draw list"

definition timetext :: "(string \<Rightarrow> string) \<Rightarrow> string \<Rightarrow> string option" where
  "timetext strftime format = (if format \<noteq> [] then Some (strftime format) else None)"

definition render_frame ::
  "(string \<Rightarrow> string) \<Rightarrow> bool \<Rightarrow> 'c swaylock_state \<Rightarrow> swaylock_surface \<Rightarrow> frame" where
  "render_frame strftime buffer_ok state surface =
     (let text_l1 = (if clock (args state) then timetext strftime (timestr (args state))
                     else None);
          text_l2 = (if clock (args state) then timetext strftime (datestr (args state))
                     else None);
          draw_indicator =
            (show_indicator (args state) \<and>
             (auth_state state \<noteq> AUTH_STATE_IDLE \<or>
              input_state state \<noteq> INPUT_STATE_IDLE \<or>
              indicator_idle_visible (args state)));
          c = colors (args state)
      in if scale surface = 0 then Division_by_zero
         else if \<not> buffer_ok then No_buffer
         else Frame
           ([Paint_clear] @
            (if draw_indicator
             then [Stroke_ring (ring c)] @
                  (case text_l1 of None \<Rightarrow> [] | Some l1 \<Rightarrow> [Show_text (text_color c) l1]) @
                  (case text_l2 of None \<Rightarrow> [] | Some l2 \<Rightarrow> [Show_text (text_color c) l2]) @
                  (if input_state state = INPUT_STATE_LETTER \<or>
                      input_state state = INPUT_STATE_BACKSPACE
                   then [Stroke_highlight
                           (if input_state state = INPUT_STATE_LETTER then highlight_key c
                            else highlight_bs c)
                           (highlight_start state)]
                   else []) @
                  [Stroke_borders
                     (if input_state state = INPUT_STATE_CLEAR then highlight_clear c
                      else if auth_state state = AUTH_STATE_VALIDATING then highlight_ver c
                      else if auth_state state = AUTH_STATE_INVALID then highlight_wrong c
                      else ring c)]
             else [Log_info ''Not drawing indicator...'']) @
            [Subsurface_set_position, Attach_and_commit]))"

text \<open>The parts of the lock indicator: the ring, its texts, the highlight, the borders.\<close>

fun indicator_part :: "draw \<Rightarrow> bool" where
  "indicator_part (Stroke_ring c) = True"
| "indicator_part (Show_text c l) = True"
| "indicator_part (Stroke_highlight c h) = True"
| "indicator_part (Stroke_borders c) = True"
| "indicator_part d = False"

fun draws_indicator :: "frame \<Rightarrow> bool" where
  "draws_indicator (Frame ds) = list_ex indicator_part ds"
| "draws_indicator f = False"

section \<open>Kinds of actions\<close>

text \<open>
  The actions fall into kinds by the part of the program that performs them; the
  theorems about the order of actions in a run are stated with these kinds.
\<close>

datatype kind =
  Reporting | Loading | Setting_up | Listening | Dispatching | Registering | Looping
  | Calling_back | Tearing_down

fun kind_of :: "action \<Rightarrow> kind" where
  "kind_of (Log l m) = Reporting"
| "kind_of (Stdout m) = Reporting"
| "kind_of (Stderr m) = Reporting"
| "kind_of (LogInit l) = Reporting"
| "kind_of InitPwBackend = Loading"
| "kind_of (LoadBackgroundImage p) = Loading"
| "kind_of (PasswordBufferCreate n) = Setting_up"
| "kind_of Pipe = Setting_up"
| "kind_of FcntlNonblock = Setting_up"
| "kind_of DisplayConnect = Setting_up"
| "kind_of LoopCreate = Setting_up"
| "kind_of Roundtrip = Dispatching"
| "kind_of SessionLock = Setting_up"
| "kind_of (RegistryBind i n) = Listening"
| "kind_of (CreateSurface n) = Listening"
| "kind_of (DestroySurface n) = Listening"
| "kind_of (FrameCallback n) = Listening"
| "kind_of (SurfaceCommit n) = Listening"
| "kind_of (AckConfigure n) = Listening"
| "kind_of (RenderFrameBackground n) = Listening"
| "kind_of (RenderFrame n) = Listening"
| "kind_of DisplayDispatch = Dispatching"
| "kind_of (LoopAddFd c) = Registering"
| "kind_of (Sigaction c) = Registering"
| "kind_of DisplayFlush = Looping"
| "kind_of LoopPoll = Looping"
| "kind_of (Invoke c) = Calling_back"
| "kind_of (LoopAddTimer c) = Calling_back"
| "kind_of UnlockAndDestroy = Tearing_down"
| "kind_of SecretBufferDestroy = Tearing_down"

definition within :: "kind set \<Rightarrow> action list \<Rightarrow> bool" where
  "within K t = list_all (\<lambda>a. kind_of a \<in> K) t"

text \<open>
  \<open>args_only s s'\<close>: the state \<open>s'\<close> differs from \<open>s\<close> in the arguments and the images
  at most.
\<close>

definition args_only :: "'c swaylock_state \<Rightarrow> 'c swaylock_state \<Rightarrow> bool" where
  "args_only s s' \<longleftrightarrow> s' = s\<lparr>args := args s', images := images s'\<rparr>"

section \<open>A sample run\<close>

text \<open>
  A run of the program for the examples below: no options and no config file; a
  compositor with one output, which confirms the lock; a wrong password, then the right
  one.
\<close>

definition sample_env :: environment where
  "sample_env =
     \<lparr>strtol = (\<lambda>s. 0), atoi = (\<lambda>s. 0),
      parse_background_mode =
        (\<lambda>s. if s = ''fill'' then BACKGROUND_MODE_FILL else BACKGROUND_MODE_INVALID),
      wordexp = (\<lambda>s. Some [s]),
      load_background_image = (\<lambda>s. None),
      swaylock_version = ''1.6'',
      debug_flag = False,
      argc = 1,
      cli_first = [],
      cli = [],
      get_config_path = None,
      config_file = (\<lambda>f. None),
      getopt_line = (\<lambda>l. []),
      password_buffer_create = (\<lambda>n. Some []),
      pipe_ok = True,
      fcntl_ok = True,
      display_connect_ok = True,
      roundtrip1 = Some [(''wl_compositor'', 1), (''wl_subcompositor'', 2), (''wl_shm'', 3),
                         (''wl_output'', 4), (''ext_session_lock_manager_v1'', 5)],
      roundtrip2 = Some [OutputScale 4 1, OutputName 4 ''DP-1'', OutputDone 4],
      lock_dispatches = [Some [LockLocked, SurfaceConfigure 4 1920 1080]],
      iterations = [(Flushed, [CommReady (Byte 0)]), (Flushed, [CommReady (Byte 1)])]\<rparr>"

section \<open>Properties\<close>

subsection \<open>Traces and results\<close>

lemma within_Nil [simp]: "within K []"
  by (simp add: within_def)

lemma within_Cons [simp]: "within K (a # t) \<longleftrightarrow> kind_of a \<in> K \<and> within K t"
  by (simp add: within_def)

lemma within_append [simp]: "within K (t @ u) \<longleftrightarrow> within K t \<and> within K u"
  by (simp add: within_def)

lemma within_mono: "within K t \<Longrightarrow> K \<subseteq> L \<Longrightarrow> within L t"
  by (auto simp: within_def list_all_iff)

lemma within_mem: "within K t \<Longrightarrow> a \<in> set t \<Longrightarrow> kind_of a \<in> K"
  by (auto simp: within_def list_all_iff)

lemma trace_of_emit [simp]: "trace_of (emit t r) = t @ trace_of r"
  by (cases r) simp_all


lemma within_and_then:
  "within K (trace_of r) \<Longrightarrow> (\<And>a. within K (trace_of (f a))) \<Longrightarrow>
   within K (trace_of (and_then r f))"
  by (cases r) simp_all

lemma trace_of_continue [simp]: "trace_of (continue r) = fst r"
  by (simp add: continue_def)

lemma damage_surface_kinds: "within {Listening} (fst (damage_surface surface))"
  by (simp add: damage_surface_def)

lemma damage_surfaces_Cons:
  "damage_surfaces (s # r) =
     (fst (damage_surface s) @ fst (damage_surfaces r),
      snd (damage_surface s) # snd (damage_surfaces r))"
  by (simp add: split_beta)

lemma damage_surfaces_kinds: "within {Listening} (fst (damage_surfaces ss))"
  by (induction ss) (simp_all add: damage_surfaces_Cons damage_surface_kinds del: damage_surfaces.simps(2))

lemma damage_state_kinds: "within {Listening} (fst (damage_state state))"
  by (simp add: damage_state_def split_beta damage_surfaces_kinds)

lemma on_surface_kinds:
  "(\<And>s. within K (trace_of (h s))) \<Longrightarrow> within K (trace_of (on_surface name h ss))"
  by (induction ss) (simp_all add: within_and_then)

lemma with_surface_kinds:
  "(\<And>s. within K (trace_of (h s))) \<Longrightarrow> within K (trace_of (with_surface name h state))"
  by (simp add: with_surface_def within_and_then on_surface_kinds)

lemma destroy_first_kinds: "within {Listening} (fst (destroy_first name ss))"
  by (induction ss) (simp_all add: split_beta)

lemma call_render_frame_kinds: "within {Listening} (trace_of (call_render_frame surface))"
  by (simp add: call_render_frame_def)

lemma handle_event_kinds:
  "within {Listening, Reporting} (trace_of (handle_event e state))"
proof (cases e)
  case (Global i n) then show ?thesis by (simp add: handle_global_def)
next
  case (GlobalRemove n) then show ?thesis
    using destroy_first_kinds [of n "surfaces state"]
    by (auto simp add: handle_global_remove_def split_beta intro: within_mono)
next
  case (OutputGeometry n sp) then show ?thesis
    by (auto simp: handle_wl_output_geometry_def Let_def
        intro!: with_surface_kinds within_mono [OF damage_surface_kinds])
next
  case (OutputDone n) then show ?thesis
    by (auto simp: handle_wl_output_done_def create_surface_def intro!: with_surface_kinds)
next
  case (OutputScale n f) then show ?thesis
    by (auto simp: handle_wl_output_scale_def Let_def
        intro!: with_surface_kinds within_mono [OF damage_surface_kinds])
next
  case (OutputName n f) then show ?thesis
    by (auto simp: handle_wl_output_name_def intro!: with_surface_kinds)
next
  case (SurfaceConfigure n w h) then show ?thesis
    by (auto simp: ext_session_lock_surface_v1_handle_configure_def
        intro!: with_surface_kinds within_mono [OF call_render_frame_kinds])
next
  case (FrameDone n) then show ?thesis
    by (auto simp: surface_frame_handle_done_def
        intro!: with_surface_kinds within_and_then within_mono [OF call_render_frame_kinds])
qed (simp_all add: ext_session_lock_v1_handle_finished_def)

lemma dispatch_events_kinds:
  "within {Listening, Reporting} (trace_of (dispatch_events es state))"
  by (induction es arbitrary: state) (simp_all add: within_and_then handle_event_kinds)

subsection \<open>The kinds of actions of each part of the program\<close>

lemma comm_in_kinds:
  "within {Reporting, Calling_back, Listening} (fst (comm_in r state))"
  using damage_state_kinds
  by (auto simp: comm_in_def read_comm_reply_def schedule_auth_idle_def split_beta Let_def
      split: comm_read.splits intro: within_mono)

lemma set_auth_idle_kinds: "within {Listening} (fst (set_auth_idle state))"
  by (simp add: set_auth_idle_def damage_state_kinds)

lemma run_callback_kinds:
  "within {Calling_back, Dispatching, Listening, Reporting} (trace_of (run_callback r state))"
proof (cases r)
  case (DisplayReady d)
  then show ?thesis
    using dispatch_events_kinds
    by (auto simp: display_in_def split: option.splits intro: within_mono)
next
  case (CommReady c)
  then show ?thesis
    using comm_in_kinds [of c state] by (auto intro: within_mono)
next
  case SigusrReady
  then show ?thesis by simp
next
  case AuthIdleExpired
  then show ?thesis
    using set_auth_idle_kinds [of state] by (auto intro: within_mono)
qed

lemma loop_poll_kinds:
  "within {Calling_back, Dispatching, Listening, Reporting} (trace_of (loop_poll rs state))"
  by (induction rs arbitrary: state) (simp_all add: within_and_then run_callback_kinds)

lemma main_loop_kinds:
  "within {Looping, Calling_back, Dispatching, Listening, Reporting}
     (trace_of (main_loop its state))"
proof (induction its arbitrary: state)
  case Nil
  then show ?case by simp
next
  case (Cons it its)
  obtain fl rs where it: "it = (fl, rs)" by (cases it)
  have "within {Looping, Calling_back, Dispatching, Listening, Reporting}
          (trace_of (and_then (loop_poll rs state) (\<lambda>state'. main_loop its state')))"
    by (rule within_and_then) (auto intro: within_mono [OF loop_poll_kinds] Cons.IH)
  then show ?case by (simp add: it)
qed

lemma wait_locked_kinds:
  "within {Dispatching, Listening, Reporting} (trace_of (wait_locked ds state))"
proof (induction ds arbitrary: state)
  case Nil
  then show ?case by simp
next
  case (Cons d ds)
  show ?case
  proof (cases d)
    case None
    then show ?thesis by simp
  next
    case (Some es)
    have "within {Dispatching, Listening, Reporting}
            (trace_of (and_then (dispatch_events es state) (\<lambda>state'. wait_locked ds state')))"
      by (rule within_and_then) (auto intro: within_mono [OF dispatch_events_kinds] Cons.IH)
    with Some show ?thesis by simp
  qed
qed

lemma handle_globals_kinds: "within {Listening} (fst (handle_globals gs state))"
  by (induction gs arbitrary: state) (auto simp: split_beta handle_global_def)

lemma create_surfaces_kinds: "within {Listening} (fst (create_surfaces state ss))"
  by (induction ss) (auto simp: split_beta create_surface_def)

lemma main_setup_kinds:
  "within {Setting_up, Dispatching, Listening, Reporting} (trace_of (main_setup env state))"
proof -
  have a: "\<And>es s. within {Setting_up, Dispatching, Listening, Reporting}
     (trace_of (and_then (dispatch_events es s)
        (\<lambda>state. let (t, ss) = create_surfaces state (surfaces state)
                  in Cont t (state\<lparr>surfaces := ss\<rparr>))))"
    by (rule within_and_then)
       (auto simp: split_beta intro: within_mono [OF dispatch_events_kinds]
          within_mono [OF create_surfaces_kinds])
  show ?thesis
    using a
    by (auto simp: main_setup_def Let_def split_beta split: option.splits
        intro: within_mono [OF handle_globals_kinds])
qed

subsection \<open>One option at a time\<close>

lemma replace_image_kinds: "within {Reporting} (fst (replace_image name np imgs))"
  by (simp add: replace_image_def split: option.split)

lemma load_image_kinds: "within {Reporting, Loading} (trace_of (load_image env arg state))"
  using replace_image_kinds [of "fst (split_image_arg arg)" "snd (split_image_arg arg)" "images state"]
  by (auto simp: load_image_def Let_def split: option.split intro: within_mono)

lemma parse_color_kinds: "within {Reporting} (fst (parse_color c))"
  by (simp add: parse_color_def Let_def)

lemma set_color_kinds: "within {Reporting, Loading} (fst (set_color f a hs p))"
  using parse_color_kinds [of a] by (auto simp: set_color_def intro: within_mono)

lemma emit_Nil [simp]: "emit [] r = r"
  by (cases r) simp_all

lemma emit_emit [simp]: "emit t (emit u r) = emit (t @ u) r"
  by (cases r) simp_all

lemma and_then_emit [simp]: "and_then (emit t r) f = emit t (and_then r f)"
  by (cases r) simp_all

lemma and_then_assoc: "and_then (and_then r f) g = and_then r (\<lambda>a. and_then (f a) g)"
  by (cases r) simp_all

lemma args_only_refl [simp]: "args_only s s"
  by (simp add: args_only_def)

lemma args_only_trans: "args_only s s' \<Longrightarrow> args_only s' s'' \<Longrightarrow> args_only s s''"
  unfolding args_only_def
  by (cases s; cases s'; cases s'') simp

lemma load_image_result:
  "(\<exists>t s'. load_image env arg s = Cont t s' \<and> args_only s s') \<or> (\<exists>t. load_image env arg s = Killed t)"
  unfolding load_image_def Let_def
  by (simp add: args_only_def split: option.split)

lemma set_color_state:
  "args_only (p_state p) (p_state (snd (set_color f a hs p))) \<and>
   (\<not> hs \<longrightarrow> p_state (snd (set_color f a hs p)) = p_state p)"
  by (simp add: set_color_def set_arg_def args_only_def)

lemma set_arg_state:
  "args_only (p_state p) (p_state (set_arg f hs p)) \<and>
   (\<not> hs \<longrightarrow> p_state (set_arg f hs p) = p_state p)"
  by (simp add: set_arg_def args_only_def)

lemma parse_options_step_plain:
  assumes "c \<noteq> LO_IMAGE" "c \<noteq> LO_BACKGROUND_MODE" "c \<noteq> LO_VERSION" "c \<noteq> LO_HELP"
    "c \<noteq> LO_BACKGROUND_COLOR"
  shows "\<exists>t p''. parse_options env hs hc (Opt c a # rest) p =
           emit t (parse_options env hs hc rest p'')
         \<and> within {Reporting, Loading} t
         \<and> args_only (p_state p) (p_state p'') \<and> (\<not> hs \<longrightarrow> p_state p'' = p_state p)"
proof -
  let ?goal = "\<exists>t p''. parse_options env hs hc (Opt c a # rest) p =
           emit t (parse_options env hs hc rest p'')
         \<and> within {Reporting, Loading} t
         \<and> args_only (p_state p) (p_state p'') \<and> (\<not> hs \<longrightarrow> p_state p'' = p_state p)"
  have plain: "\<And>p''. parse_options env hs hc (Opt c a # rest) p = parse_options env hs hc rest p''
      \<Longrightarrow> args_only (p_state p) (p_state p'') \<and> (\<not> hs \<longrightarrow> p_state p'' = p_state p)
      \<Longrightarrow> ?goal"
  proof -
    fix p''
    assume a: "parse_options env hs hc (Opt c a # rest) p = parse_options env hs hc rest p''"
      and b: "args_only (p_state p) (p_state p'') \<and> (\<not> hs \<longrightarrow> p_state p'' = p_state p)"
    from a have "parse_options env hs hc (Opt c a # rest) p =
        emit [] (parse_options env hs hc rest p'')"
      by simp
    with b within_Nil show ?goal by blast
  qed
  have col: "\<And>f. parse_options env hs hc (Opt c a # rest) p =
        emit (fst (set_color f a hs p)) (parse_options env hs hc rest (snd (set_color f a hs p)))
      \<Longrightarrow> ?goal"
  proof -
    fix f
    assume a: "parse_options env hs hc (Opt c a # rest) p =
        emit (fst (set_color f a hs p)) (parse_options env hs hc rest (snd (set_color f a hs p)))"
    show ?goal
      using a set_color_state [of p f a hs] set_color_kinds [of f a hs p] by blast
  qed
  from assms show ?thesis
  proof (cases c)
    case LO_CONFIG
    show ?thesis
      by (rule plain [of "if hc then p\<lparr>p_config_path := Some a\<rparr> else p"])
         (simp_all add: LO_CONFIG)
  next
    case LO_DEBUG
    have "parse_options env hs hc (Opt c a # rest) p =
        emit [LogInit LOG_DEBUG] (parse_options env hs hc rest p)"
      by (simp add: LO_DEBUG)
    moreover have "within {Reporting, Loading} [LogInit LOG_DEBUG]" by simp
    ultimately show ?thesis using args_only_refl by blast
  next
    case LO_IGNORE_EMPTY
    show ?thesis by (rule plain) (simp add: LO_IGNORE_EMPTY, rule set_arg_state)
  next
    case LO_NO_INDICATOR
    show ?thesis by (rule plain) (simp add: LO_NO_INDICATOR, rule set_arg_state)
  next
    case LO_IND_IDLE_VISIBLE
    show ?thesis by (rule plain) (simp add: LO_IND_IDLE_VISIBLE, rule set_arg_state)
  next
    case LO_IND_RADIUS
    show ?thesis by (rule plain) (simp add: LO_IND_RADIUS, rule set_arg_state)
  next
    case LO_IND_THICKNESS
    show ?thesis by (rule plain) (simp add: LO_IND_THICKNESS, rule set_arg_state)
  next
    case LO_IND_X
    show ?thesis by (rule plain) (simp add: LO_IND_X, rule set_arg_state)
  next
    case LO_IND_Y
    show ?thesis by (rule plain) (simp add: LO_IND_Y, rule set_arg_state)
  next
    case LO_FONT
    show ?thesis by (rule plain) (simp add: LO_FONT, rule set_arg_state)
  next
    case LO_FONT_SIZE
    show ?thesis by (rule plain) (simp add: LO_FONT_SIZE, rule set_arg_state)
  next
    case LO_CLOCK
    show ?thesis by (rule plain) (simp add: LO_CLOCK, rule set_arg_state)
  next
    case LO_TIMESTR
    show ?thesis by (rule plain) (simp add: LO_TIMESTR, rule set_arg_state)
  next
    case LO_DATESTR
    show ?thesis by (rule plain) (simp add: LO_DATESTR, rule set_arg_state)
  next
    case LO_COLOR_TEXT
    show ?thesis by (rule col) (simp add: LO_COLOR_TEXT split_beta)
  next
    case LO_COLOR_RING
    show ?thesis by (rule col) (simp add: LO_COLOR_RING split_beta)
  next
    case LO_COLOR_HL_BS
    show ?thesis by (rule col) (simp add: LO_COLOR_HL_BS split_beta)
  next
    case LO_COLOR_HL_KEY
    show ?thesis by (rule col) (simp add: LO_COLOR_HL_KEY split_beta)
  next
    case LO_COLOR_HL_CLEAR
    show ?thesis by (rule col) (simp add: LO_COLOR_HL_CLEAR split_beta)
  next
    case LO_COLOR_HL_VER
    show ?thesis by (rule col) (simp add: LO_COLOR_HL_VER split_beta)
  next
    case LO_COLOR_HL_WRONG
    show ?thesis by (rule col) (simp add: LO_COLOR_HL_WRONG split_beta)
  qed simp_all
qed


lemma parse_options_step:
  "(\<exists>t p''. parse_options env hs hc (Opt c a # rest) p = emit t (parse_options env hs hc rest p'')
       \<and> within {Reporting, Loading} t
       \<and> args_only (p_state p) (p_state p'') \<and> (\<not> hs \<longrightarrow> p_state p'' = p_state p)
       \<and> \<not> (hs \<and> c = LO_BACKGROUND_MODE \<and> parse_background_mode env a = BACKGROUND_MODE_INVALID))
   \<or> (\<exists>t p''. parse_options env hs hc (Opt c a # rest) p = Cont t (1, p'')
       \<and> within {Reporting, Loading} t
       \<and> args_only (p_state p) (p_state p'') \<and> (\<not> hs \<longrightarrow> p_state p'' = p_state p)
       \<and> (\<not> hs \<longrightarrow> Stderr usage \<in> set t))
   \<or> parse_options env hs hc (Opt c a # rest) p =
         Exit [Stdout (''swaylock version '' @ swaylock_version env)] 0
   \<or> (hs \<and> (\<exists>t. parse_options env hs hc (Opt c a # rest) p = Killed t
         \<and> within {Reporting, Loading} t))"
  (is "?go \<or> ?stop \<or> ?version \<or> ?abort")
proof -
  consider (image) "c = LO_IMAGE" | (mode) "c = LO_BACKGROUND_MODE" | (version) "c = LO_VERSION"
    | (default) "c = LO_HELP \<or> c = LO_BACKGROUND_COLOR"
    | (plain) "c \<noteq> LO_IMAGE" "c \<noteq> LO_BACKGROUND_MODE" "c \<noteq> LO_VERSION" "c \<noteq> LO_HELP"
        "c \<noteq> LO_BACKGROUND_COLOR"
    by blast
  then show ?thesis
  proof cases
    case image
    show ?thesis
    proof (cases hs)
      case False
      have "parse_options env hs hc (Opt c a # rest) p =
          emit [] (parse_options env hs hc rest p)"
        using False image by simp
      then have ?go using False image within_Nil args_only_refl by blast
      then show ?thesis by blast
    next
      case True
      from load_image_result [of env a "p_state p"] show ?thesis
      proof
        assume "\<exists>t s'. load_image env a (p_state p) = Cont t s' \<and> args_only (p_state p) s'"
        then obtain t s' where l: "load_image env a (p_state p) = Cont t s'"
          and ao: "args_only (p_state p) s'"
          by blast
        have "within {Reporting, Loading} t"
          using load_image_kinds [of env a "p_state p"] l by simp
        moreover have "parse_options env hs hc (Opt c a # rest) p =
            emit t (parse_options env hs hc rest (p\<lparr>p_state := s'\<rparr>))"
          using True image l by simp
        moreover have "args_only (p_state p) (p_state (p\<lparr>p_state := s'\<rparr>))"
          using ao by simp
        ultimately have ?go using True image by blast
        then show ?thesis by blast
      next
        assume "\<exists>t. load_image env a (p_state p) = Killed t"
        then obtain t where l: "load_image env a (p_state p) = Killed t" by blast
        have "within {Reporting, Loading} t"
          using load_image_kinds [of env a "p_state p"] l by simp
        moreover have "parse_options env hs hc (Opt c a # rest) p = Killed t"
          using True image l by simp
        ultimately have ?abort using True by blast
        then show ?thesis by blast
      qed
    qed
  next
    case mode
    let ?p' = "set_arg (\<lambda>a'. a'\<lparr>mode := parse_background_mode env a\<rparr>) True p"
    have ao: "args_only (p_state p) (p_state ?p')"
      by (simp add: set_arg_def args_only_def)
    show ?thesis
    proof (cases "hs \<and> parse_background_mode env a = BACKGROUND_MODE_INVALID")
      case True
      then have "parse_options env hs hc (Opt c a # rest) p = Cont [] (1, ?p')"
        using mode by (simp add: set_arg_def)
      then have ?stop using ao True within_Nil by blast
      then show ?thesis by blast
    next
      case False
      let ?q = "if hs then ?p' else p"
      have "parse_options env hs hc (Opt c a # rest) p =
          emit [] (parse_options env hs hc rest ?q)"
        using False mode by (auto simp add: set_arg_def)
      moreover have "args_only (p_state p) (p_state ?q)"
        using ao by simp
      moreover have "\<not> hs \<longrightarrow> p_state ?q = p_state p"
        by simp
      ultimately have ?go using False within_Nil by blast
      then show ?thesis by blast
    qed
  next
    case version
    then have ?version by simp
    then show ?thesis by blast
  next
    case default
    then have "parse_options env hs hc (Opt c a # rest) p = Cont [Stderr usage] (1, p)"
      by auto
    moreover have "within {Reporting, Loading} [Stderr usage]" by simp
    moreover have "Stderr usage \<in> set [Stderr usage]" by simp
    ultimately have ?stop using args_only_refl by blast
    then show ?thesis by blast
  next
    case plain
    from parse_options_step_plain [OF plain, of env hs hc a rest p]
    have ?go using plain by blast
    then show ?thesis by blast
  qed
qed

lemma emit_Cont: "emit u r0 = Cont t x \<longleftrightarrow> (\<exists>t1. r0 = Cont t1 x \<and> t = u @ t1)"
  by (cases r0) auto

lemma emit_Exit: "emit u r0 = Exit t c \<longleftrightarrow> (\<exists>t1. r0 = Exit t1 c \<and> t = u @ t1)"
  by (cases r0) auto

lemma emit_Killed: "emit u r0 = Killed t \<longleftrightarrow> (\<exists>t1. r0 = Killed t1 \<and> t = u @ t1)"
  by (cases r0) auto

lemma emit_Stuck: "emit u r0 = Stuck t \<longleftrightarrow> (\<exists>t1. r0 = Stuck t1 \<and> t = u @ t1)"
  by (cases r0) auto

lemma and_then_Cont:
  "and_then r0 f = Cont t x \<longleftrightarrow>
     (\<exists>t0 a0 t1. r0 = Cont t0 a0 \<and> f a0 = Cont t1 x \<and> t = t0 @ t1)"
  by (cases r0) (auto simp: emit_Cont)

lemma and_then_Exit:
  "and_then r0 f = Exit t c \<longleftrightarrow>
     r0 = Exit t c \<or> (\<exists>t0 a0 t1. r0 = Cont t0 a0 \<and> f a0 = Exit t1 c \<and> t = t0 @ t1)"
  by (cases r0) (auto simp: emit_Exit)

lemma and_then_Killed:
  "and_then r0 f = Killed t \<longleftrightarrow>
     r0 = Killed t \<or> (\<exists>t0 a0 t1. r0 = Cont t0 a0 \<and> f a0 = Killed t1 \<and> t = t0 @ t1)"
  by (cases r0) (auto simp: emit_Killed)

lemma and_then_Stuck:
  "and_then r0 f = Stuck t \<longleftrightarrow>
     r0 = Stuck t \<or> (\<exists>t0 a0 t1. r0 = Cont t0 a0 \<and> f a0 = Stuck t1 \<and> t = t0 @ t1)"
  by (cases r0) (auto simp: emit_Stuck)

declare parse_options.simps(3) [simp del]

lemma parse_options_kinds:
  "within {Reporting, Loading} (trace_of (parse_options env hs hc opts p))"
proof (induction opts arbitrary: p)
  case Nil
  then show ?case by simp
next
  case (Cons x opts)
  show ?case
  proof (cases x)
    case Unrecognised
    then show ?thesis by simp
  next
    case (Opt c a)
    from parse_options_step [of env hs hc c a opts p] show ?thesis
      unfolding Opt using Cons.IH by (elim disjE exE conjE) simp_all
  qed
qed

text \<open>What a call of parse_options can return.\<close>

lemma parse_options_Cont:
  "parse_options env hs hc opts p = Cont t (r, p') \<Longrightarrow>
   (r = 0 \<or> r = 1) \<and> args_only (p_state p) (p_state p') \<and> (\<not> hs \<longrightarrow> p_state p' = p_state p)"
proof (induction opts arbitrary: p t)
  case Nil
  then show ?case by simp
next
  case (Cons x opts)
  show ?case
  proof (cases x)
    case Unrecognised
    with Cons.prems show ?thesis by simp
  next
    case (Opt c a)
    from parse_options_step [of env hs hc c a opts p] show ?thesis
    proof (elim disjE exE conjE)
      fix u p''
      assume eq: "parse_options env hs hc (Opt c a # opts) p =
          emit u (parse_options env hs hc opts p'')"
        and ao: "args_only (p_state p) (p_state p'')"
        and ns: "\<not> hs \<longrightarrow> p_state p'' = p_state p"
      from Cons.prems eq Opt obtain t1 where "parse_options env hs hc opts p'' = Cont t1 (r, p')"
        by (auto simp: emit_Cont)
      from Cons.IH [OF this] ao ns show ?thesis
        by (auto intro: args_only_trans)
    next
      fix u p''
      assume "parse_options env hs hc (Opt c a # opts) p = Cont u (1, p'')"
        and "args_only (p_state p) (p_state p'')"
        and "\<not> hs \<longrightarrow> p_state p'' = p_state p"
      with Cons.prems Opt show ?thesis by simp
    next
      assume "parse_options env hs hc (Opt c a # opts) p =
        Exit [Stdout (''swaylock version '' @ swaylock_version env)] 0"
      with Cons.prems Opt show ?thesis by simp
    next
      fix u
      assume "parse_options env hs hc (Opt c a # opts) p = Killed u"
      with Cons.prems Opt show ?thesis by simp
    qed
  qed
qed






subsection \<open>The config file and the options of main\<close>


lemma load_config_lines_kinds:
  "within {Reporting, Loading} (trace_of (load_config_lines env n ls p))"
proof (induction ls arbitrary: p n)
  case Nil
  then show ?case by simp
next
  case (Cons raw ls)
  have "within {Reporting, Loading}
     (trace_of (and_then (parse_options env True False (getopt_line env (strip_newline raw)) p)
        (\<lambda>(result, p'). if result \<noteq> 0 then Cont [] p'
                          else load_config_lines env (n + 1) ls p')))"
    by (rule within_and_then) (auto simp: parse_options_kinds Cons.IH)
  with Cons.IH show ?case by (simp add: Let_def)
qed

lemma load_config_lines_Cont:
  "load_config_lines env n ls p = Cont t p' \<Longrightarrow> args_only (p_state p) (p_state p')"
proof (induction ls arbitrary: p t n)
  case Nil
  then show ?case by simp
next
  case (Cons raw ls)
  show ?case
  proof (cases "strip_newline raw = [] \<or> hd (strip_newline raw) = CHR ''#''")
    case True
    with Cons show ?thesis by (simp add: Let_def)
  next
    case False
    with Cons.prems obtain t0 r q t1 where
      po: "parse_options env True False (getopt_line env (strip_newline raw)) p = Cont t0 (r, q)"
      and rest: "(if r \<noteq> 0 then Cont [] q else load_config_lines env (n + 1) ls q) = Cont t1 p'"
      by (auto simp: Let_def emit_Cont and_then_Cont)
    from parse_options_Cont [OF po] have ao: "args_only (p_state p) (p_state q)" by simp
    show ?thesis
    proof (cases "r = 0")
      case True
      with rest Cons.IH ao show ?thesis by (auto intro: args_only_trans)
    next
      case False
      with rest ao show ?thesis by simp
    qed
  qed
qed



lemma load_config_kinds: "within {Reporting, Loading} (trace_of (load_config env c p))"
  by (auto simp: load_config_def load_config_lines_kinds split: option.splits
      intro!: within_and_then)

lemma load_config_Cont:
  "load_config env c p = Cont t (r, p') \<Longrightarrow> r = 0 \<and> args_only (p_state p) (p_state p')"
  by (auto simp: load_config_def and_then_Cont split: option.splits
      dest: load_config_lines_Cont)



lemma main_options_kinds:
  "within {Reporting, Loading} (trace_of (main_options env))"
  unfolding main_options_def
  by (auto simp: parse_options_kinds load_config_kinds Let_def split: option.splits
      intro!: within_and_then)

lemma config_stage_Cont:
  "(case cp of None \<Rightarrow> Cont [] (0, p)
    | Some c \<Rightarrow> emit [Log LOG_DEBUG (''Found config at '' @ c)] (load_config env c p))
   = Cont t (r, p') \<Longrightarrow> r = 0 \<and> args_only (p_state p) (p_state p')"
  by (auto simp: emit_Cont split: option.splits dest: load_config_Cont)



lemma main_options_Cont:
  assumes "main_options env = Cont t s"
  shows "args_only initial_state s"
  using assms unfolding main_options_def Let_def
  by (auto simp: emit_Cont and_then_Cont split: if_splits
      dest!: parse_options_Cont config_stage_Cont intro: args_only_trans)





text \<open>main: what the start-up leaves.\<close>

lemma main_startup_kinds:
  "within {Reporting, Loading, Setting_up, Dispatching, Listening} (trace_of (main_startup env))"
  unfolding main_startup_def
  by (intro within_and_then)
     (auto intro: within_mono [OF main_options_kinds] within_mono [OF main_setup_kinds]
        within_mono [OF wait_locked_kinds])

lemma main_run_kinds:
  "within {Registering, Looping, Calling_back, Dispatching, Listening, Reporting}
     (trace_of (main_run its state))"
  using main_loop_kinds [of its "state\<lparr>run_display := True\<rparr>"]
  by (auto simp: main_run_def intro: within_mono)

lemma main_of_startup:
  "(main env :: ('w::len) word swaylock_state res) =
     (case (main_startup env :: 'w word swaylock_state res) of
        Cont t s \<Rightarrow>
          (case main_run (iterations env) s of
             Cont u s' \<Rightarrow> Exit (t @ u @ [UnlockAndDestroy, Roundtrip]) 0
           | Exit u c \<Rightarrow> Exit (t @ u) c
           | Killed u \<Rightarrow> Killed (t @ u)
           | Stuck u \<Rightarrow> Stuck (t @ u))
      | Exit t c \<Rightarrow> Exit t c
      | Killed t \<Rightarrow> Killed t
      | Stuck t \<Rightarrow> Stuck t)"
  by (auto simp: main_def main_finish_def split: res.splits)



subsection \<open>Events, set-up and the wait for the lock\<close>

lemma on_surface_result:
  assumes "\<And>s. (\<exists>t s'. h s = Cont t s') \<or> (\<exists>t. h s = Killed t)"
  shows "(\<exists>t ss'. on_surface name h ss = Cont t ss') \<or> (\<exists>t. on_surface name h ss = Killed t)"
proof (induction ss)
  case Nil
  then show ?case by simp
next
  case (Cons surface ss)
  show ?case
  proof (cases "output_global_name surface = name")
    case True
    with assms [of surface] show ?thesis by auto
  next
    case False
    with Cons.IH show ?thesis by auto
  qed
qed

lemma with_surface_result:
  assumes "\<And>s. (\<exists>t s'. h s = Cont t s') \<or> (\<exists>t. h s = Killed t)"
  shows "(\<exists>t state'. with_surface name h state = Cont t state' \<and>
            failed_attempts state' = failed_attempts state) \<or>
         (\<exists>t. with_surface name h state = Killed t)"
  using on_surface_result [of h name "surfaces state", OF assms]
  by (auto simp: with_surface_def)

lemma continue_result: "(\<exists>t s'. continue r = Cont t s') \<or> (\<exists>t. continue r = Killed t)"
  by (simp add: continue_def)

lemma call_render_frame_result:
  "(\<exists>t s'. call_render_frame surface = Cont t s') \<or> (\<exists>t. call_render_frame surface = Killed t)"
  by (simp add: call_render_frame_def)

lemma configure_result:
  "(\<exists>t s'. ext_session_lock_surface_v1_handle_configure w h surface = Cont t s') \<or>
   (\<exists>t. ext_session_lock_surface_v1_handle_configure w h surface = Killed t)"
  by (simp add: ext_session_lock_surface_v1_handle_configure_def call_render_frame_def)

lemma frame_done_result:
  "(\<exists>t s'. surface_frame_handle_done surface = Cont t s') \<or>
   (\<exists>t. surface_frame_handle_done surface = Killed t)"
  by (simp add: surface_frame_handle_done_def call_render_frame_def)

lemma handle_event_result:
  "(\<exists>t state'. handle_event e state = Cont t state' \<and> e \<noteq> LockFinished \<and>
       failed_attempts state' = failed_attempts state) \<or>
   (\<exists>t. handle_event e state = Exit t 2 \<and> e = LockFinished) \<or>
   (\<exists>t. handle_event e state = Killed t)"
proof (cases e)
  case (Global i n)
  then show ?thesis by (simp add: continue_def handle_global_def)
next
  case (GlobalRemove n)
  then show ?thesis by (simp add: continue_def handle_global_remove_def split_beta)
next
  case (OutputGeometry n sp)
  with with_surface_result [of "\<lambda>surface. continue (handle_wl_output_geometry state sp surface)"
      n state, OF continue_result]
  show ?thesis by simp
next
  case (OutputMode n)
  then show ?thesis by simp
next
  case (OutputDone n)
  with with_surface_result [of "\<lambda>surface. continue (handle_wl_output_done state surface)"
      n state, OF continue_result]
  show ?thesis by simp
next
  case (OutputScale n f)
  with with_surface_result [of "\<lambda>surface. continue (handle_wl_output_scale state f surface)"
      n state, OF continue_result]
  show ?thesis by simp
next
  case (OutputName n f)
  with with_surface_result [of "\<lambda>surface. continue (handle_wl_output_name f surface)"
      n state, OF continue_result]
  show ?thesis by simp
next
  case (OutputDescription n)
  then show ?thesis by simp
next
  case LockLocked
  then show ?thesis by (simp add: ext_session_lock_v1_handle_locked_def)
next
  case LockFinished
  then show ?thesis by (simp add: ext_session_lock_v1_handle_finished_def)
next
  case (SurfaceConfigure n w h)
  with with_surface_result [of "ext_session_lock_surface_v1_handle_configure w h" n state,
      OF configure_result]
  show ?thesis by simp
next
  case (FrameDone n)
  with with_surface_result [of surface_frame_handle_done n state, OF frame_done_result]
  show ?thesis by simp
qed

lemma handle_event_Cont:
  "handle_event e state = Cont t state' \<Longrightarrow>
   failed_attempts state' = failed_attempts state \<and> e \<noteq> LockFinished"
  using handle_event_result [of e state] by auto

lemma dispatch_events_Cont:
  "dispatch_events es state = Cont t state' \<Longrightarrow>
   failed_attempts state' = failed_attempts state \<and> LockFinished \<notin> set es"
proof (induction es arbitrary: state t)
  case Nil
  then show ?case by simp
next
  case (Cons e es)
  from Cons.prems obtain t0 s0 t1 where
    e: "handle_event e state = Cont t0 s0" and rest: "dispatch_events es s0 = Cont t1 state'"
    by (auto simp: and_then_Cont)
  from handle_event_Cont [OF e] Cons.IH [OF rest] show ?case by auto
qed

lemma dispatch_events_Exit: "dispatch_events es state = Exit t c \<Longrightarrow> c = 2"
proof (induction es arbitrary: state t)
  case Nil
  then show ?case by simp
next
  case (Cons e es)
  from handle_event_result [of e state] Cons.prems Cons.IH show ?case
    by (auto simp: and_then_Exit)
qed

lemma dispatch_events_not_Stuck: "dispatch_events es state \<noteq> Stuck t"
proof (induction es arbitrary: state t)
  case Nil
  then show ?case by simp
next
  case (Cons e es)
  from handle_event_result [of e state] Cons.IH show ?case
    by (auto simp: and_then_Stuck)
qed

lemma dispatch_events_reaches_finished:
  "dispatch_events pre state = Cont t state' \<Longrightarrow>
   dispatch_events (pre @ LockFinished # post) state =
     Exit (t @ [Log LOG_ERROR ''Failed to lock session -- is another lockscreen running?'']) 2"
proof (induction pre arbitrary: state t)
  case Nil
  then show ?case by (simp add: ext_session_lock_v1_handle_finished_def)
next
  case (Cons e pre)
  from Cons.prems obtain t0 s0 t1 where
    e: "handle_event e state = Cont t0 s0" and rest: "dispatch_events pre s0 = Cont t1 state'"
    and t: "t = t0 @ t1"
    by (auto simp: and_then_Cont)
  from Cons.IH [OF rest] e t show ?case by simp
qed

lemma wait_locked_Exit: "wait_locked ds state = Exit t c \<Longrightarrow> c = 2"
proof (induction ds arbitrary: state t)
  case Nil
  then show ?case by (simp split: if_splits)
next
  case (Cons d ds)
  show ?case
  proof (cases d)
    case None
    with Cons.prems show ?thesis by (auto split: if_splits)
  next
    case (Some es)
    from Cons.prems Some have "locked state \<or>
      (\<exists>u. and_then (dispatch_events es state) (\<lambda>state'. wait_locked ds state') = Exit u c)"
      by (auto simp: emit_Exit split: if_splits)
    with Cons.prems Cons.IH show ?thesis
      by (auto simp: and_then_Exit split: if_splits dest: dispatch_events_Exit)
  qed
qed

lemma wait_locked_Cont:
  "wait_locked ds state = Cont t state' \<Longrightarrow>
   failed_attempts state' = failed_attempts state \<and> locked state'"
proof (induction ds arbitrary: state t)
  case Nil
  then show ?case by (simp split: if_splits)
next
  case (Cons d ds)
  show ?case
  proof (cases "locked state")
    case True
    with Cons.prems show ?thesis by simp
  next
    case False
    with Cons.prems obtain es t0 s0 t1 where "d = Some es"
      "dispatch_events es state = Cont t0 s0" "wait_locked ds s0 = Cont t1 state'"
      by (cases d) (auto simp: emit_Cont and_then_Cont)
    with Cons.IH [of s0 t1] dispatch_events_Cont [of es state t0 s0] show ?thesis by simp
  qed
qed

lemma handle_globals_failed_attempts [simp]:
  "failed_attempts (snd (handle_globals gs state)) = failed_attempts state"
  by (induction gs arbitrary: state) (auto simp: split_beta handle_global_def)

lemma main_setup_Cont:
  assumes "main_setup env state = Cont t state'"
  shows "failed_attempts state' = failed_attempts state \<and> fcntl_ok env \<and>
         FcntlNonblock \<in> set t \<and> PasswordBufferCreate 1024 \<in> set t"
  using assms unfolding main_setup_def Let_def
  by (auto simp: emit_Cont and_then_Cont split_beta split: if_splits option.splits
      dest!: dispatch_events_Cont)

lemma main_startup_Cont:
  assumes "(main_startup env :: ('w::len) word swaylock_state res) = Cont t state"
  shows "failed_attempts state = 0 \<and> locked state \<and> fcntl_ok env \<and> FcntlNonblock \<in> set t"
proof -
  from assms obtain t1 s1 t2 s2 t3 where
    o: "(main_options env :: 'w word swaylock_state res) = Cont t1 s1"
    and s: "main_setup env s1 = Cont t2 s2"
    and w: "wait_locked (lock_dispatches env) s2 = Cont t3 state"
    and t: "t = t1 @ t2 @ t3"
    by (auto simp: main_startup_def and_then_Cont)
  from main_options_Cont [OF o] have "failed_attempts s1 = 0"
    by (simp add: args_only_def initial_state_def zero_state_def Let_def)
       (metis swaylock_state.select_convs(8) swaylock_state.surjective
          swaylock_state.update_convs(1,2))
  with main_setup_Cont [OF s] wait_locked_Cont [OF w] t show ?thesis by simp
qed

subsection \<open>Redraw requests\<close>

lemma damage_surfaces_marks:
  "\<forall>surface \<in> set (snd (damage_surfaces ss)).
     width surface \<noteq> 0 \<and> height surface \<noteq> 0 \<longrightarrow> dirty surface \<and> frame_pending surface"
  by (induction ss) (auto simp: split_beta damage_surface_def)

lemma damage_state_fields:
  "snd (damage_state state) = state\<lparr>surfaces := snd (damage_surfaces (surfaces state))\<rparr>"
  by (simp add: damage_state_def split_beta)

subsection \<open>A failed verdict\<close>

text \<open>
  C1, as the code has it.  When the read of the verdict channel yields failure,
  \<open>comm_in\<close> sets \<open>auth_state\<close> to Invalid, adds one to \<open>failed_attempts\<close>, arms the
  idle timer (whose callback later sets \<open>auth_state\<close> back to Idle) and requests a
  redraw: every configured surface is dirty and has a frame callback pending.  It
  leaves \<open>run_display\<close> as it is and returns to the event loop, so the attempt ends
  neither the loop nor the process.  The password buffer is not touched: it is as the
  handler found it.
\<close>

theorem failed_verdict_handled:
  assumes "\<not> snd (read_comm_reply r)"
  shows "\<exists>t state'.
           comm_in r state = (t, state') \<and>
           run_callback (CommReady r) state = Cont (Invoke Cb_comm_in # t) state' \<and>
           auth_state state' = AUTH_STATE_INVALID \<and>
           failed_attempts state' = failed_attempts state + 1 \<and>
           password state' = password state \<and>
           auth_idle_timer state' \<and> LoopAddTimer Cb_set_auth_idle \<in> set t \<and>
           auth_state (snd (set_auth_idle state')) = AUTH_STATE_IDLE \<and>
           (\<forall>surface \<in> set (surfaces state').
              width surface \<noteq> 0 \<and> height surface \<noteq> 0 \<longrightarrow>
              dirty surface \<and> frame_pending surface) \<and>
           run_display state' = run_display state"
proof -
  let ?s1 = "state\<lparr>auth_state := AUTH_STATE_INVALID, auth_idle_timer := True,
                    failed_attempts := failed_attempts state + 1\<rparr>"
  have c: "comm_in r state =
      (fst (read_comm_reply r) @ [LoopAddTimer Cb_set_auth_idle] @ fst (damage_state ?s1),
       snd (damage_state ?s1))"
    using assms by (simp add: comm_in_def schedule_auth_idle_def split_beta Let_def)
  have d: "snd (damage_state ?s1) = ?s1\<lparr>surfaces := snd (damage_surfaces (surfaces state))\<rparr>"
    by (simp add: damage_state_fields)
  show ?thesis
    using damage_surfaces_marks [of "surfaces state"]
    by (simp add: c d continue_def set_auth_idle_def damage_state_fields)
qed

theorem failed_verdict_handled_witness:
  "\<not> snd (read_comm_reply (Byte 0)) \<and>
   (\<exists>t state'.
      comm_in (Byte 0)
        ((initial_state :: 32 word swaylock_state)
           \<lparr>surfaces := [(new_surface 4)\<lparr>width := 1920, height := 1080\<rparr>],
            auth_state := AUTH_STATE_VALIDATING, run_display := True\<rparr>) = (t, state') \<and>
      auth_state state' = AUTH_STATE_INVALID \<and>
      failed_attempts state' = 1 \<and>
      auth_idle_timer state' \<and>
      auth_state (snd (set_auth_idle state')) = AUTH_STATE_IDLE \<and>
      run_display state')"
proof -
  let ?s = "(initial_state :: 32 word swaylock_state)
           \<lparr>surfaces := [(new_surface 4)\<lparr>width := 1920, height := 1080\<rparr>],
            auth_state := AUTH_STATE_VALIDATING, run_display := True\<rparr>"
  have h: "\<not> snd (read_comm_reply (Byte 0))"
    by (simp add: read_comm_reply_def)
  have z: "failed_attempts ?s = 0" "run_display ?s"
    by (simp_all add: initial_state_def zero_state_def Let_def)
  from failed_verdict_handled [OF h, of ?s] obtain t state' where
    "comm_in (Byte 0) ?s = (t, state')" "auth_state state' = AUTH_STATE_INVALID"
    "failed_attempts state' = failed_attempts ?s + 1" "auth_idle_timer state'"
    "auth_state (snd (set_auth_idle state')) = AUTH_STATE_IDLE"
    "run_display state' = run_display ?s"
    by blast
  with h z show ?thesis by simp
qed

text \<open>
  C1 fails as stated: the handler does not clear the password buffer.  Three characters
  in the buffer when the verdict arrives are still there after it.
\<close>

theorem failed_verdict_keeps_buffer:
  "password (snd (comm_in (Byte 0)
     ((initial_state :: 32 word swaylock_state)
        \<lparr>password := \<lparr>pw_len = 3, pw_buffer_len = 1024, pw_buffer = Some ''abc''\<rparr>\<rparr>))) =
   \<lparr>pw_len = 3, pw_buffer_len = 1024, pw_buffer = Some ''abc''\<rparr>"
  by code_simp

subsection \<open>A successful verdict\<close>




subsection \<open>The lock is refused\<close>

lemma main_setup_roundtrip_failed:
  assumes "roundtrip2 env = None"
  shows "\<exists>t. main_setup env state = Exit t 1"
  using assms unfolding main_setup_def Let_def
  by (simp add: split_beta split: option.split)

text \<open>
  C3, as the code has it.  The handler of the compositor's \<open>finished\<close> event ends the
  process with exit code 2, in any state; so does every dispatch or roundtrip that gets
  as far as that event, that is, whose earlier events have been handled.  While the
  program waits to become locked, a failed dispatch makes \<open>main\<close> return 2, a dispatch
  that gets as far as a \<open>finished\<close> event ends the process with 2, and the wait ends the
  process with no other exit code.  But when it is the roundtrip directly after the lock
  request that fails, the set-up ends with exit code 1.
\<close>

theorem refused_lock_exits_2:
  "ext_session_lock_v1_handle_finished state =
     Exit [Log LOG_ERROR ''Failed to lock session -- is another lockscreen running?''] 2
   \<and> (\<forall>t state'. dispatch_events pre state = Cont t state' \<longrightarrow>
         dispatch_events (pre @ LockFinished # post) state =
           Exit (t @ [Log LOG_ERROR
                        ''Failed to lock session -- is another lockscreen running?'']) 2)
   \<and> (\<not> locked state \<longrightarrow>
        wait_locked (None # ds) state =
          Exit [DisplayDispatch, Log LOG_ERROR ''wl_display_dispatch() failed''] 2)
   \<and> (\<forall>t state'. \<not> locked state \<and> dispatch_events pre state = Cont t state' \<longrightarrow>
         wait_locked (Some (pre @ LockFinished # post) # ds) state =
           Exit (DisplayDispatch # t @
                 [Log LOG_ERROR
                    ''Failed to lock session -- is another lockscreen running?'']) 2)
   \<and> (\<forall>t c. wait_locked ds state = Exit t c \<longrightarrow> c = 2)
   \<and> (roundtrip2 env = None \<longrightarrow> (\<exists>t. main_setup env state = Exit t 1))"
proof (intro conjI impI allI)
  show "ext_session_lock_v1_handle_finished state =
     Exit [Log LOG_ERROR ''Failed to lock session -- is another lockscreen running?''] 2"
    by (simp add: ext_session_lock_v1_handle_finished_def)
next
  fix t state'
  assume "dispatch_events pre state = Cont t state'"
  then show "dispatch_events (pre @ LockFinished # post) state =
      Exit (t @ [Log LOG_ERROR ''Failed to lock session -- is another lockscreen running?'']) 2"
    by (rule dispatch_events_reaches_finished)
next
  assume "\<not> locked state"
  then show "wait_locked (None # ds) state =
      Exit [DisplayDispatch, Log LOG_ERROR ''wl_display_dispatch() failed''] 2"
    by simp
next
  fix t state'
  assume a: "\<not> locked state \<and> dispatch_events pre state = Cont t state'"
  then have "dispatch_events (pre @ LockFinished # post) state =
      Exit (t @ [Log LOG_ERROR ''Failed to lock session -- is another lockscreen running?'']) 2"
    by (simp add: dispatch_events_reaches_finished)
  with a show "wait_locked (Some (pre @ LockFinished # post) # ds) state =
      Exit (DisplayDispatch # t @
            [Log LOG_ERROR ''Failed to lock session -- is another lockscreen running?'']) 2"
    by simp
next
  fix t c
  assume "wait_locked ds state = Exit t c"
  then show "c = 2" by (rule wait_locked_Exit)
next
  assume "roundtrip2 env = None"
  then show "\<exists>t. main_setup env state = Exit t 1"
    by (rule main_setup_roundtrip_failed)
qed

theorem refused_lock_exits_2_witness:
  "\<not> locked (initial_state :: 32 word swaylock_state)
   \<and> dispatch_events [OutputScale 4 1] (initial_state :: 32 word swaylock_state) =
       Cont [] (initial_state :: 32 word swaylock_state)
   \<and> wait_locked [Some ([OutputScale 4 1] @ LockFinished # [LockLocked])]
       (initial_state :: 32 word swaylock_state) =
       Exit (DisplayDispatch # [] @
             [Log LOG_ERROR ''Failed to lock session -- is another lockscreen running?'']) 2
   \<and> wait_locked [None] (initial_state :: 32 word swaylock_state) =
       Exit [DisplayDispatch, Log LOG_ERROR ''wl_display_dispatch() failed''] 2
   \<and> roundtrip2 (sample_env\<lparr>roundtrip2 := None\<rparr>) = None
   \<and> (\<exists>t. main_setup (sample_env\<lparr>roundtrip2 := None\<rparr>)
             (initial_state :: 32 word swaylock_state) = Exit t 1)"
proof -
  have h: "\<not> locked (initial_state :: 32 word swaylock_state)"
    by (simp add: initial_state_def zero_state_def Let_def)
  have d: "dispatch_events [OutputScale 4 1] (initial_state :: 32 word swaylock_state) =
      Cont [] (initial_state :: 32 word swaylock_state)"
    by (simp add: with_surface_def initial_state_def zero_state_def Let_def)
  have r: "roundtrip2 (sample_env\<lparr>roundtrip2 := None\<rparr>) = None"
    by simp
  from refused_lock_exits_2 [of "initial_state :: 32 word swaylock_state" "[OutputScale 4 1]"
      "[LockLocked]" "[]" "sample_env\<lparr>roundtrip2 := None\<rparr>"] h d r
  show ?thesis by blast
qed

text \<open>
  C3 fails as stated: when the roundtrip that follows the lock request fails, the lock
  cannot be established and \<open>main\<close> returns 1, not 2.
\<close>

theorem failed_lock_roundtrip_exits_1:
  "(main (sample_env\<lparr>roundtrip2 := None\<rparr>) :: 32 word swaylock_state res) =
     Exit [LogInit LOG_ERROR, InitPwBackend, PasswordBufferCreate 1024, Pipe, FcntlNonblock,
           DisplayConnect, LoopCreate, Roundtrip, RegistryBind ''wl_compositor'' 1,
           RegistryBind ''wl_subcompositor'' 2, RegistryBind ''wl_shm'' 3,
           RegistryBind ''wl_output'' 4, RegistryBind ''ext_session_lock_manager_v1'' 5,
           SessionLock, Roundtrip] 1"
  by code_simp

subsection \<open>The main loop\<close>








subsection \<open>The counter of failed attempts\<close>

lemma damage_state_failed_attempts [simp]:
  "failed_attempts (snd (damage_state state)) = failed_attempts state"
  by (simp add: damage_state_def split_beta)

lemma run_callback_failed_attempts:
  assumes "run_callback r state = Cont t state'"
  shows "failed_attempts state' = failed_attempts state + (if failed_verdict r then 1 else 0)"
proof (cases r)
  case (DisplayReady d)
  with assms show ?thesis
    by (cases d)
       (auto simp: display_in_def failed_verdict_def emit_Cont dest: dispatch_events_Cont)
next
  case (CommReady c)
  with assms show ?thesis
    by (auto simp: failed_verdict_def comm_in_def continue_def split_beta Let_def
        schedule_auth_idle_def)
next
  case SigusrReady
  with assms show ?thesis by (auto simp: failed_verdict_def term_in_def)
next
  case AuthIdleExpired
  with assms show ?thesis
    by (auto simp: failed_verdict_def set_auth_idle_def continue_def)
qed

lemma loop_poll_failed_attempts:
  "loop_poll rs state = Cont t state' \<Longrightarrow>
   failed_attempts state' = failed_attempts state + of_nat (length (filter failed_verdict rs))"
proof (induction rs arbitrary: state t)
  case Nil
  then show ?case by simp
next
  case (Cons r rs)
  from Cons.prems obtain t0 s0 t1 where r: "run_callback r state = Cont t0 s0"
    and rest: "loop_poll rs s0 = Cont t1 state'"
    by (auto simp: and_then_Cont)
  from run_callback_failed_attempts [OF r] Cons.IH [OF rest] show ?case
    by simp
qed

lemma main_loop_failed_attempts:
  "main_loop its state = Cont t state' \<Longrightarrow>
   \<exists>k \<le> failed_verdicts its. failed_attempts state' = failed_attempts state + of_nat k"
proof (induction its arbitrary: state t)
  case Nil
  then show ?case by (auto split: if_splits)
next
  case (Cons it its)
  obtain fl rs where it: "it = (fl, rs)" by (cases it)
  show ?case
  proof (cases "run_display state \<and> fl \<noteq> FlushFailed")
    case False
    with Cons.prems it show ?thesis by (auto split: if_splits)
  next
    case True
    with Cons.prems it obtain t0 s0 t1 where p: "loop_poll rs state = Cont t0 s0"
      and l: "main_loop its s0 = Cont t1 state'"
      by (auto simp: emit_Cont and_then_Cont)
    from Cons.IH [OF l] obtain k where k: "k \<le> failed_verdicts its"
      and e: "failed_attempts state' = failed_attempts s0 + of_nat k"
      by blast
    from loop_poll_failed_attempts [OF p] e
    have "failed_attempts state' =
        failed_attempts state + of_nat (length (filter failed_verdict rs) + k)"
      by simp
    moreover have "length (filter failed_verdict rs) + k \<le> failed_verdicts (it # its)"
      using k by (simp add: failed_verdicts_def it)
    ultimately show ?thesis by blast
  qed
qed

lemma word_add_no_wrap:
  fixes x :: "('w::len) word"
  assumes "unat x + k < 2 ^ LENGTH('w)"
  shows "x \<le> x + of_nat k"
proof -
  from assms have "k < 2 ^ LENGTH('w)" by simp
  then have "unat (of_nat k :: 'w word) = k"
    by (simp add: unat_of_nat)
  with assms show ?thesis
    by (simp add: no_olen_add_nat)
qed


text \<open>
  C7, as the code has it.  \<open>failed_attempts\<close> is 0 at process start and is still 0
  when the start-up is over; a callback of the event loop adds one to it when it is the
  verdict callback with a failed verdict, and leaves it alone otherwise; nothing else
  writes it.  So over a run of the loop it does not decrease as long as the counter does
  not wrap around: as long as the failed verdicts still fit above its value.
\<close>

theorem failed_attempts_only_counts_up:
  "failed_attempts (initial_state :: ('w::len) word swaylock_state) = 0
   \<and> (\<forall>t s. (main_startup env :: 'w word swaylock_state res) = Cont t s \<longrightarrow>
         failed_attempts s = 0)
   \<and> (\<forall>t s'. run_callback r (state :: 'w word swaylock_state) = Cont t s' \<longrightarrow>
         failed_attempts s' = failed_attempts state + (if failed_verdict r then 1 else 0))
   \<and> (\<forall>t s'. main_loop its state = Cont t s' \<longrightarrow>
         unat (failed_attempts state) + failed_verdicts its < 2 ^ LENGTH('w) \<longrightarrow>
         failed_attempts state \<le> failed_attempts s')"
proof (intro conjI allI impI)
  show "failed_attempts (initial_state :: 'w word swaylock_state) = 0"
    by (simp add: initial_state_def zero_state_def Let_def)
next
  fix t s
  assume "(main_startup env :: 'w word swaylock_state res) = Cont t s"
  from main_startup_Cont [OF this] show "failed_attempts s = 0" by simp
next
  fix t s'
  assume "run_callback r state = Cont t s'"
  then show "failed_attempts s' = failed_attempts state + (if failed_verdict r then 1 else 0)"
    by (rule run_callback_failed_attempts)
next
  fix t s'
  assume l: "main_loop its state = Cont t s'"
    and b: "unat (failed_attempts state) + failed_verdicts its < 2 ^ LENGTH('w)"
  from main_loop_failed_attempts [OF l] obtain k where "k \<le> failed_verdicts its"
    and e: "failed_attempts s' = failed_attempts state + of_nat k"
    by blast
  with b have "unat (failed_attempts state) + k < 2 ^ LENGTH('w)" by simp
  from word_add_no_wrap [OF this] e show "failed_attempts state \<le> failed_attempts s'"
    by simp
qed

theorem failed_attempts_only_counts_up_witness:
  "main_loop [(Flushed, [CommReady (Byte 0)]), (Flushed, [CommReady (Byte 0), SigusrReady])]
     ((initial_state :: 32 word swaylock_state)\<lparr>run_display := True\<rparr>) =
     Cont [DisplayFlush, LoopPoll, Invoke Cb_comm_in, LoopAddTimer Cb_set_auth_idle,
           DisplayFlush, LoopPoll, Invoke Cb_comm_in, LoopAddTimer Cb_set_auth_idle,
           Invoke Cb_term_in]
       ((initial_state :: 32 word swaylock_state)
          \<lparr>auth_state := AUTH_STATE_INVALID, failed_attempts := 2, auth_idle_timer := True\<rparr>)
   \<and> unat (failed_attempts ((initial_state :: 32 word swaylock_state)\<lparr>run_display := True\<rparr>))
       + failed_verdicts
           [(Flushed, [CommReady (Byte 0)]), (Flushed, [CommReady (Byte 0), SigusrReady])]
       < 2 ^ LENGTH(32)
   \<and> failed_attempts ((initial_state :: 32 word swaylock_state)\<lparr>run_display := True\<rparr>)
       \<le> failed_attempts
            ((initial_state :: 32 word swaylock_state)
               \<lparr>auth_state := AUTH_STATE_INVALID, failed_attempts := 2,
                auth_idle_timer := True\<rparr>)"
proof -
  let ?its = "[(Flushed, [CommReady (Byte 0)]), (Flushed, [CommReady (Byte 0), SigusrReady])]"
  let ?s = "(initial_state :: 32 word swaylock_state)\<lparr>run_display := True\<rparr>"
  have l: "main_loop ?its ?s =
     Cont [DisplayFlush, LoopPoll, Invoke Cb_comm_in, LoopAddTimer Cb_set_auth_idle,
           DisplayFlush, LoopPoll, Invoke Cb_comm_in, LoopAddTimer Cb_set_auth_idle,
           Invoke Cb_term_in]
       ((initial_state :: 32 word swaylock_state)
          \<lparr>auth_state := AUTH_STATE_INVALID, failed_attempts := 2, auth_idle_timer := True\<rparr>)"
    by (simp add: comm_in_def read_comm_reply_def schedule_auth_idle_def damage_state_def
        term_in_def continue_def initial_state_def zero_state_def Let_def)
  have b: "unat (failed_attempts ?s) + failed_verdicts ?its < 2 ^ LENGTH(32)"
    by (simp add: failed_verdicts_def failed_verdict_def read_comm_reply_def initial_state_def
        zero_state_def Let_def)
  from failed_attempts_only_counts_up [of sample_env SigusrReady ?s ?its] l b
  show ?thesis by blast
qed

text \<open>
  C7 fails as stated: at the largest value of the counter one more failed verdict
  brings it back to 0.
\<close>

theorem failed_attempts_wraps_around:
  "failed_attempts
     (snd (comm_in (Byte 0)
        ((initial_state :: 32 word swaylock_state)\<lparr>failed_attempts := 0xFFFFFFFF\<rparr>))) = 0
   \<and> \<not> failed_attempts
         ((initial_state :: 32 word swaylock_state)\<lparr>failed_attempts := 0xFFFFFFFF\<rparr>)
       \<le> failed_attempts
           (snd (comm_in (Byte 0)
              ((initial_state :: 32 word swaylock_state)\<lparr>failed_attempts := 0xFFFFFFFF\<rparr>)))"
  by (simp add: comm_in_def read_comm_reply_def schedule_auth_idle_def damage_state_def
      split_beta Let_def)

subsection \<open>Background image lookup\<close>

lemma strcmp_eq_0: "strcmp a b = 0 \<longleftrightarrow> a = b"
  by (induction a b rule: strcmp.induct) auto

lemma lenient_strcmp_eq_0: "lenient_strcmp a b = 0 \<longleftrightarrow> a = b"
  by (cases a; cases b) (simp_all add: strcmp_eq_0)

lemma find_append_case:
  "find P (xs @ ys) = (case find P xs of None \<Rightarrow> find P ys | Some x \<Rightarrow> Some x)"
  by (induction xs) auto

lemma select_image_loop_exact:
  "find (\<lambda>i. output_name i = name) imgs = Some i \<Longrightarrow>
   select_image_loop imgs name d = Some (cairo_surface i)"
  by (induction imgs arbitrary: d) (auto simp: lenient_strcmp_eq_0)

lemma select_image_loop_fallback:
  "find (\<lambda>i. output_name i = name) imgs = None \<Longrightarrow>
   select_image_loop imgs name d =
     (case find (\<lambda>i. output_name i = None) (rev imgs) of
        Some w \<Rightarrow> Some (cairo_surface w) | None \<Rightarrow> d)"
proof (induction imgs arbitrary: d)
  case Nil
  then show ?case by simp
next
  case (Cons img rest)
  from Cons.prems have ne: "output_name img \<noteq> name"
    and rest: "find (\<lambda>i. output_name i = name) rest = None"
    by (auto split: if_splits)
  show ?case
    using ne Cons.IH [OF rest]
    by (auto simp: lenient_strcmp_eq_0 find_append_case split: option.splits)
qed

text \<open>
  C9.  For every image list and every output name: if the list has an entry whose key
  equals the output's name, \<open>select_image\<close> returns the image of the first such entry,
  whatever default entries the list holds; if it has none, \<open>select_image\<close> returns the
  image of a default entry (one whose key is absent; the last of them in the list) when
  there is one; and if the list has neither, no image is selected.
\<close>

theorem select_image_precedence:
  "(find (\<lambda>i. output_name i = surface_output_name surface) imgs = Some i
      \<longrightarrow> select_image imgs surface = Some (cairo_surface i))
   \<and> (find (\<lambda>i. output_name i = surface_output_name surface) imgs = None
        \<and> find (\<lambda>i. output_name i = None) (rev imgs) = Some w
      \<longrightarrow> select_image imgs surface = Some (cairo_surface w))
   \<and> ((\<forall>i \<in> set imgs. output_name i \<noteq> surface_output_name surface \<and> output_name i \<noteq> None)
      \<longrightarrow> select_image imgs surface = None)"
proof (intro conjI impI)
  assume "find (\<lambda>i. output_name i = surface_output_name surface) imgs = Some i"
  then show "select_image imgs surface = Some (cairo_surface i)"
    by (simp add: select_image_def select_image_loop_exact)
next
  assume "find (\<lambda>i. output_name i = surface_output_name surface) imgs = None
    \<and> find (\<lambda>i. output_name i = None) (rev imgs) = Some w"
  then show "select_image imgs surface = Some (cairo_surface w)"
    by (simp add: select_image_def select_image_loop_fallback)
next
  assume none: "\<forall>i \<in> set imgs.
    output_name i \<noteq> surface_output_name surface \<and> output_name i \<noteq> None"
  then have "find (\<lambda>i. output_name i = surface_output_name surface) imgs = None"
    and "find (\<lambda>i. output_name i = None) (rev imgs) = None"
    by (auto simp: find_None_iff)
  then show "select_image imgs surface = None"
    by (simp add: select_image_def select_image_loop_fallback)
qed

theorem select_image_precedence_witness:
  "select_image
     [\<lparr>path = ''a.png'', output_name = None, cairo_surface = 1\<rparr>,
      \<lparr>path = ''b.png'', output_name = Some ''DP-1'', cairo_surface = 2\<rparr>,
      \<lparr>path = ''c.png'', output_name = None, cairo_surface = 3\<rparr>]
     \<lparr>output_global_name = 7, surface_output_name = Some ''DP-1'', surface_image = None,
      width = 0, height = 0, scale = 0, subpixel = 0, created = False, dirty = False,
      frame_pending = False\<rparr> = Some 2
   \<and> select_image
     [\<lparr>path = ''a.png'', output_name = None, cairo_surface = 1\<rparr>,
      \<lparr>path = ''b.png'', output_name = Some ''DP-1'', cairo_surface = 2\<rparr>,
      \<lparr>path = ''c.png'', output_name = None, cairo_surface = 3\<rparr>]
     \<lparr>output_global_name = 8, surface_output_name = Some ''HDMI-A-1'', surface_image = None,
      width = 0, height = 0, scale = 0, subpixel = 0, created = False, dirty = False,
      frame_pending = False\<rparr> = Some 3
   \<and> select_image
     [\<lparr>path = ''b.png'', output_name = Some ''DP-1'', cairo_surface = 2\<rparr>]
     \<lparr>output_global_name = 8, surface_output_name = Some ''HDMI-A-1'', surface_image = None,
      width = 0, height = 0, scale = 0, subpixel = 0, created = False, dirty = False,
      frame_pending = False\<rparr> = None"
  using
    select_image_precedence
      [of "\<lparr>output_global_name = 7, surface_output_name = Some ''DP-1'', surface_image = None,
            width = 0, height = 0, scale = 0, subpixel = 0, created = False, dirty = False,
            frame_pending = False\<rparr>"
          "[\<lparr>path = ''a.png'', output_name = None, cairo_surface = 1\<rparr>,
            \<lparr>path = ''b.png'', output_name = Some ''DP-1'', cairo_surface = 2\<rparr>,
            \<lparr>path = ''c.png'', output_name = None, cairo_surface = 3\<rparr>]"
          "\<lparr>path = ''b.png'', output_name = Some ''DP-1'', cairo_surface = 2\<rparr>"]
    select_image_precedence
      [of "\<lparr>output_global_name = 8, surface_output_name = Some ''HDMI-A-1'',
            surface_image = None, width = 0, height = 0, scale = 0, subpixel = 0,
            created = False, dirty = False, frame_pending = False\<rparr>"
          "[\<lparr>path = ''a.png'', output_name = None, cairo_surface = 1\<rparr>,
            \<lparr>path = ''b.png'', output_name = Some ''DP-1'', cairo_surface = 2\<rparr>,
            \<lparr>path = ''c.png'', output_name = None, cairo_surface = 3\<rparr>]"
          _
          "\<lparr>path = ''c.png'', output_name = None, cairo_surface = 3\<rparr>"]
    select_image_precedence
      [of "\<lparr>output_global_name = 8, surface_output_name = Some ''HDMI-A-1'',
            surface_image = None, width = 0, height = 0, scale = 0, subpixel = 0,
            created = False, dirty = False, frame_pending = False\<rparr>"
          "[\<lparr>path = ''b.png'', output_name = Some ''DP-1'', cairo_surface = 2\<rparr>]"]
  by simp

subsection \<open>Leaving the process\<close>

lemma main_after_startup:
  assumes "(main_startup env :: ('w::len) word swaylock_state res) = Cont t s"
  shows "(main env :: 'w word swaylock_state res) =
     emit (t @ [LoopAddFd Cb_display_in, LoopAddFd Cb_comm_in, LoopAddFd Cb_term_in,
                Sigaction Cb_do_sigusr])
       (and_then (main_loop (iterations env) (s\<lparr>run_display := True\<rparr>)) main_finish)"
  using assms by (simp add: main_def main_run_def)

lemma main_without_startup:
  assumes "\<nexists>t s. (main_startup env :: ('w::len) word swaylock_state res) = Cont t s"
  shows "(main env :: 'w word swaylock_state res) = main_startup env"
  using assms by (cases "main_startup env :: 'w word swaylock_state res") (simp_all add: main_def)




subsection \<open>The signal handler and the wake pipe\<close>

lemma sigaction_after_nonblock:
  assumes s: "Sigaction Cb_do_sigusr \<in> set (trace_of (main env :: ('w::len) word swaylock_state res))"
  shows "fcntl_ok env \<and>
         (\<exists>pre post. trace_of (main env :: 'w word swaylock_state res) =
              pre @ Sigaction Cb_do_sigusr # post \<and>
            FcntlNonblock \<in> set pre \<and> LoopAddFd Cb_term_in \<in> set pre)"
proof -
  have started: "\<exists>t s. (main_startup env :: 'w word swaylock_state res) = Cont t s"
  proof (rule ccontr)
    assume n: "\<nexists>t s. (main_startup env :: 'w word swaylock_state res) = Cont t s"
    have "within {Reporting, Loading, Setting_up, Dispatching, Listening}
        (trace_of (main_startup env :: 'w word swaylock_state res))"
      by (rule main_startup_kinds)
    with s main_without_startup [OF n] show False
      by (auto dest: within_mem)
  qed
  then obtain t s0 where st: "(main_startup env :: 'w word swaylock_state res) = Cont t s0"
    by blast
  from main_startup_Cont [OF st] have f: "fcntl_ok env" "FcntlNonblock \<in> set t"
    by simp_all
  let ?rest = "trace_of (and_then (main_loop (iterations env) (s0\<lparr>run_display := True\<rparr>))
                 main_finish)"
  have "trace_of (main env :: 'w word swaylock_state res) =
      (t @ [LoopAddFd Cb_display_in, LoopAddFd Cb_comm_in, LoopAddFd Cb_term_in]) @
      Sigaction Cb_do_sigusr # ?rest"
    by (simp add: main_after_startup [OF st])
  moreover have "FcntlNonblock \<in> set (t @ [LoopAddFd Cb_display_in, LoopAddFd Cb_comm_in,
      LoopAddFd Cb_term_in])"
    and "LoopAddFd Cb_term_in \<in> set (t @ [LoopAddFd Cb_display_in, LoopAddFd Cb_comm_in,
      LoopAddFd Cb_term_in])"
    using f by simp_all
  ultimately have "\<exists>pre post. trace_of (main env :: 'w word swaylock_state res) =
                 pre @ Sigaction Cb_do_sigusr # post \<and>
               FcntlNonblock \<in> set pre \<and> LoopAddFd Cb_term_in \<in> set pre"
    by blast
  with f show ?thesis by simp
qed

text \<open>
  C5.  On a wake pipe whose write end is non-blocking the signal handler returns, leaves
  the program state as it was, and has written the one byte \<open>1\<close> to the pipe or, the
  pipe being full, nothing.  In every run of \<open>main\<close> that installs the handler the write
  end has been made non-blocking and \<open>term_in\<close> has been registered for the read end
  before the handler is installed.  The handling itself is done by \<open>term_in\<close> when the
  event loop finds the read end ready: it clears \<open>run_display\<close>.
\<close>

theorem signal_handler_defers:
  "(pipe_nonblock p \<longrightarrow>
      (\<exists>p'. do_sigusr sig (st, p) = Some (st, p') \<and> pipe_nonblock p' \<and>
            pipe_capacity p' = pipe_capacity p \<and>
            (pipe_bytes p' = pipe_bytes p @ [CHR ''1''] \<or>
             pipe_bytes p' = pipe_bytes p \<and> pipe_capacity p \<le> length (pipe_bytes p))))
   \<and> (Sigaction Cb_do_sigusr \<in> set (trace_of (main env :: ('w::len) word swaylock_state res))
        \<longrightarrow> fcntl_ok env \<and>
            (\<exists>pre post. trace_of (main env :: 'w word swaylock_state res) =
                 pre @ Sigaction Cb_do_sigusr # post \<and>
               FcntlNonblock \<in> set pre \<and> LoopAddFd Cb_term_in \<in> set pre))
   \<and> run_callback SigusrReady (state :: 'w word swaylock_state) =
        Cont [Invoke Cb_term_in] (state\<lparr>run_display := False\<rparr>)"
proof -
  have a: "pipe_nonblock p \<longrightarrow>
      (\<exists>p'. do_sigusr sig (st, p) = Some (st, p') \<and> pipe_nonblock p' \<and>
            pipe_capacity p' = pipe_capacity p \<and>
            (pipe_bytes p' = pipe_bytes p @ [CHR ''1''] \<or>
             pipe_bytes p' = pipe_bytes p \<and> pipe_capacity p \<le> length (pipe_bytes p)))"
    by (auto simp: do_sigusr_def write_byte_def)
  have c: "run_callback SigusrReady state = Cont [Invoke Cb_term_in] (state\<lparr>run_display := False\<rparr>)"
    by (simp add: term_in_def)
  from a c sigaction_after_nonblock [of env, where ?'w = 'w] show ?thesis
    by blast
qed

theorem signal_handler_defers_witness:
  "pipe_nonblock \<lparr>pipe_bytes = [], pipe_nonblock = True, pipe_capacity = 65536\<rparr>
   \<and> do_sigusr 10 ((initial_state :: 32 word swaylock_state),
         \<lparr>pipe_bytes = [], pipe_nonblock = True, pipe_capacity = 65536\<rparr>) =
       Some ((initial_state :: 32 word swaylock_state),
         \<lparr>pipe_bytes = ''1'', pipe_nonblock = True, pipe_capacity = 65536\<rparr>)
   \<and> (\<exists>p'. do_sigusr 10 ((initial_state :: 32 word swaylock_state),
         \<lparr>pipe_bytes = [], pipe_nonblock = True, pipe_capacity = 65536\<rparr>) =
       Some ((initial_state :: 32 word swaylock_state), p'))
   \<and> Sigaction Cb_do_sigusr \<in> set (trace_of (main sample_env :: 32 word swaylock_state res))
   \<and> (\<exists>pre post. trace_of (main sample_env :: 32 word swaylock_state res) =
          pre @ Sigaction Cb_do_sigusr # post \<and>
        FcntlNonblock \<in> set pre \<and> LoopAddFd Cb_term_in \<in> set pre)"
proof -
  let ?p = "\<lparr>pipe_bytes = [], pipe_nonblock = True, pipe_capacity = 65536\<rparr>"
  have h: "pipe_nonblock ?p" by simp
  have e: "do_sigusr 10 ((initial_state :: 32 word swaylock_state), ?p) =
       Some ((initial_state :: 32 word swaylock_state),
         \<lparr>pipe_bytes = ''1'', pipe_nonblock = True, pipe_capacity = 65536\<rparr>)"
    by (simp add: do_sigusr_def write_byte_def)
  have s: "Sigaction Cb_do_sigusr \<in> set (trace_of (main sample_env :: 32 word swaylock_state res))"
    by code_simp
  from signal_handler_defers [of ?p 10 "initial_state :: 32 word swaylock_state" sample_env
      "initial_state :: 32 word swaylock_state"] h s
  have "(\<exists>p'. do_sigusr 10 ((initial_state :: 32 word swaylock_state), ?p) =
       Some ((initial_state :: 32 word swaylock_state), p'))
     \<and> (\<exists>pre post. trace_of (main sample_env :: 32 word swaylock_state res) =
          pre @ Sigaction Cb_do_sigusr # post \<and>
        FcntlNonblock \<in> set pre \<and> LoopAddFd Cb_term_in \<in> set pre)"
    by blast
  with h e s show ?thesis by blast
qed

subsection \<open>Malformed options\<close>






subsection \<open>Drawing the indicator\<close>

text \<open>
  C10, as the code has it.  For a surface whose scale is not 0: when \<open>get_next_buffer\<close>
  gives a buffer, \<open>render_frame\<close> renders a frame, and the frame has parts of the lock
  indicator exactly when the indicator is enabled and the authentication state is not
  idle, or the input state is not idle, or the indicator is to be shown when idle;
  otherwise the frame is cleared, the line \<open>Not drawing indicator...\<close> is logged and the
  frame is committed without the indicator.  When \<open>get_next_buffer\<close> gives no buffer,
  \<open>render_frame\<close> returns without a frame.
\<close>

theorem render_frame_indicator:
  assumes "scale surface \<noteq> 0"
  shows "(draws_indicator (render_frame strftime True state surface) \<longleftrightarrow>
            show_indicator (args state) \<and>
            (auth_state state \<noteq> AUTH_STATE_IDLE \<or> input_state state \<noteq> INPUT_STATE_IDLE \<or>
             indicator_idle_visible (args state)))
         \<and> (\<exists>ds. render_frame strftime True state surface = Frame ds)
         \<and> (\<not> (show_indicator (args state) \<and>
                (auth_state state \<noteq> AUTH_STATE_IDLE \<or> input_state state \<noteq> INPUT_STATE_IDLE \<or>
                 indicator_idle_visible (args state))) \<longrightarrow>
              render_frame strftime True state surface =
                Frame [Paint_clear, Log_info ''Not drawing indicator...'',
                       Subsurface_set_position, Attach_and_commit])
         \<and> render_frame strftime False state surface = No_buffer"
  using assms
  by (auto simp: render_frame_def Let_def list_ex_iff split: option.splits)

theorem render_frame_indicator_witness:
  "scale ((new_surface 4)\<lparr>width := 1920, height := 1080, scale := 1\<rparr>) \<noteq> 0
   \<and> draws_indicator
       (render_frame (\<lambda>f. f) True
          ((initial_state :: 32 word swaylock_state)\<lparr>auth_state := AUTH_STATE_INVALID\<rparr>)
          ((new_surface 4)\<lparr>width := 1920, height := 1080, scale := 1\<rparr>))
   \<and> \<not> draws_indicator
       (render_frame (\<lambda>f. f) True (initial_state :: 32 word swaylock_state)
          ((new_surface 4)\<lparr>width := 1920, height := 1080, scale := 1\<rparr>))
   \<and> render_frame (\<lambda>f. f) True (initial_state :: 32 word swaylock_state)
          ((new_surface 4)\<lparr>width := 1920, height := 1080, scale := 1\<rparr>) =
       Frame [Paint_clear, Log_info ''Not drawing indicator...'',
              Subsurface_set_position, Attach_and_commit]"
proof -
  let ?surface = "(new_surface 4)\<lparr>width := 1920, height := 1080, scale := 1\<rparr>"
  have h: "scale ?surface \<noteq> 0" by (simp add: new_surface_def)
  have a: "show_indicator (args ((initial_state :: 32 word swaylock_state)
        \<lparr>auth_state := AUTH_STATE_INVALID\<rparr>))
      \<and> auth_state ((initial_state :: 32 word swaylock_state)
        \<lparr>auth_state := AUTH_STATE_INVALID\<rparr>) \<noteq> AUTH_STATE_IDLE"
    by (simp add: initial_state_def zero_state_def Let_def)
  have b: "auth_state (initial_state :: 32 word swaylock_state) = AUTH_STATE_IDLE
      \<and> input_state (initial_state :: 32 word swaylock_state) = INPUT_STATE_IDLE
      \<and> \<not> indicator_idle_visible (args (initial_state :: 32 word swaylock_state))"
    by (simp add: initial_state_def zero_state_def Let_def)
  from render_frame_indicator [OF h, of "\<lambda>f. f"
      "(initial_state :: 32 word swaylock_state)\<lparr>auth_state := AUTH_STATE_INVALID\<rparr>"]
    render_frame_indicator [OF h, of "\<lambda>f. f" "initial_state :: 32 word swaylock_state"]
    h a b
  show ?thesis by blast
qed

text \<open>
  C10 fails as stated: with the indicator enabled and a wrong password just reported,
  \<open>render_frame\<close> draws no indicator when \<open>get_next_buffer\<close> gives no buffer; it returns
  before it paints anything.
\<close>

theorem render_frame_without_buffer:
  "render_frame (\<lambda>f. f) False
     ((initial_state :: 32 word swaylock_state)\<lparr>auth_state := AUTH_STATE_INVALID\<rparr>)
     ((new_surface 4)\<lparr>width := 1920, height := 1080, scale := 1\<rparr>) = No_buffer
   \<and> \<not> draws_indicator
       (render_frame (\<lambda>f. f) False
          ((initial_state :: 32 word swaylock_state)\<lparr>auth_state := AUTH_STATE_INVALID\<rparr>)
          ((new_surface 4)\<lparr>width := 1920, height := 1080, scale := 1\<rparr>))
   \<and> show_indicator (args ((initial_state :: 32 word swaylock_state)
        \<lparr>auth_state := AUTH_STATE_INVALID\<rparr>))
   \<and> auth_state ((initial_state :: 32 word swaylock_state)
        \<lparr>auth_state := AUTH_STATE_INVALID\<rparr>) \<noteq> AUTH_STATE_IDLE"
  by (simp add: render_frame_def new_surface_def initial_state_def zero_state_def Let_def)

end
